theory Spec2Isabelle
  imports Complex_Main
begin

section \<open>The data model of \<open>lepus/models.py\<close>\<close>

text \<open>
  Every model class of the source extends the abstract model \<open>Templete\<close>, which carries the
  two timestamps. A row is a record extending \<open>templete\<close>; its primary key (Django's
  implicit \<open>id\<close>) and its foreign keys are natural numbers, a nullable column is an
  \<open>option\<close>, an \<open>IntegerField\<close> read back into Python is an unbounded \<open>int\<close>.
  Field names carry the model's name as a prefix, since the source reuses \<open>point\<close>,
  \<open>question\<close>, \<open>is_public\<close> and \<open>name\<close> across classes.
\<close>

type_synonym datetime = int

record templete =
  created_at :: datetime
  updated_at :: datetime

record question = templete +
  question_id :: nat
  question_category :: nat
  question_ordering :: int
  question_title :: string
  question_sentence :: string
  question_max_answers :: "int option"
  question_max_failure :: "int option"
  question_is_public :: bool

record flag = templete +
  flag_id :: nat
  flag_flag :: string
  flag_question :: nat
  flag_point :: int

record file_row = templete +
  file_id :: nat
  file_question :: nat
  file_name :: string
  file_file :: string
  file_is_public :: bool

record team = templete +
  team_id :: nat
  team_name :: string
  team_password :: string
  team_last_score_time :: "datetime option"

record user = templete +
  user_id :: nat
  user_username :: string
  user_team :: "nat option"
  user_seat :: string
  user_last_score_time :: "datetime option"

record user_connection = templete +
  uc_id :: nat
  uc_user :: nat
  uc_ip :: string

record answer = templete +
  answer_id :: nat
  answer_user :: nat
  answer_team :: nat
  answer_question :: nat
  answer_flag :: "nat option"
  answer_answer :: string

record attack_point = templete +
  ap_id :: nat
  ap_user :: nat
  ap_team :: nat
  ap_question :: nat
  ap_token :: string
  ap_point :: int

text \<open>
  The relational store behind the managers \<open>Question.objects\<close>, \<open>Flag.objects\<close>, ...:
  one list of rows per table, in insertion order.
\<close>

record store =
  Question_objects :: "question list"
  Flag_objects :: "flag list"
  File_objects :: "file_row list"
  Team_objects :: "team list"
  UserConnection_objects :: "user_connection list"
  Answer_objects :: "answer list"
  AttackPoint_objects :: "attack_point list"

text \<open>The exceptions the modelled code can raise.\<close>

datatype error =
    DoesNotExist
  | MultipleObjectsReturned
  | IntegrityError
  | DatabaseError
  | AttributeError
  | ZeroDivisionError
  | PicklingError
  | UnpicklingError

section \<open>Question.points\<close>

text \<open>
  Python's builtin \<open>sum(xs)\<close>: a running total that starts at 0 and adds the elements
  from left to right.
\<close>

definition py_sum :: "int list \<Rightarrow> int" where
  "py_sum xs = foldl (+) 0 xs"

text \<open>\<open>self.flag_set.all()\<close>: the Flag rows whose foreign key is this question.\<close>

definition flag_set :: "store \<Rightarrow> question \<Rightarrow> flag list" where
  "flag_set s q = filter (\<lambda>f. flag_question f = question_id q) (Flag_objects s)"

definition Question_points :: "store \<Rightarrow> question \<Rightarrow> int" where
  "Question_points s q = py_sum (map flag_point (flag_set s q))"

section \<open>Team.points and User.points\<close>

text \<open>
  \<open>answer.flag\<close> follows the foreign key: \<open>None\<close> when the column is null, the Flag row of
  that id otherwise, and \<open>DoesNotExist\<close> when no such row is stored.
\<close>

definition get_flag :: "store \<Rightarrow> nat \<Rightarrow> error + flag" where
  "get_flag s i =
     (case find (\<lambda>f. flag_id f = i) (Flag_objects s) of
        None \<Rightarrow> Inl DoesNotExist
      | Some f \<Rightarrow> Inr f)"

text \<open>
  The first loop of \<open>points\<close>: \<open>points += answer.flag.point\<close> for each answer.
  Reading \<open>.point\<close> of a null flag would raise \<open>AttributeError\<close>.
\<close>

fun add_flag_points :: "store \<Rightarrow> int \<Rightarrow> answer list \<Rightarrow> error + int" where
  "add_flag_points s points [] = Inr points"
| "add_flag_points s points (a # as) =
     (case answer_flag a of
        None \<Rightarrow> Inl AttributeError
      | Some i \<Rightarrow>
          (case get_flag s i of
             Inl e \<Rightarrow> Inl e
           | Inr f \<Rightarrow> add_flag_points s (points + flag_point f) as))"

text \<open>The second loop: \<open>points += attack_point.point\<close>.\<close>

fun add_attack_points :: "int \<Rightarrow> attack_point list \<Rightarrow> int" where
  "add_attack_points points [] = points"
| "add_attack_points points (p # ps) = add_attack_points (points + ap_point p) ps"

definition Team_points :: "store \<Rightarrow> team \<Rightarrow> error + int" where
  "Team_points s self =
     (let answers = filter (\<lambda>a. answer_flag a \<noteq> None)
                      (filter (\<lambda>a. answer_team a = team_id self) (Answer_objects s))
      in case add_flag_points s 0 answers of
           Inl e \<Rightarrow> Inl e
         | Inr points \<Rightarrow>
             Inr (add_attack_points points
                    (filter (\<lambda>p. ap_team p = team_id self) (AttackPoint_objects s))))"

definition User_points :: "store \<Rightarrow> user \<Rightarrow> error + int" where
  "User_points s self =
     (let answers = filter (\<lambda>a. answer_flag a \<noteq> None)
                      (filter (\<lambda>a. answer_user a = user_id self) (Answer_objects s))
      in case add_flag_points s 0 answers of
           Inl e \<Rightarrow> Inl e
         | Inr points \<Rightarrow>
             Inr (add_attack_points points
                    (filter (\<lambda>p. ap_user p = user_id self) (AttackPoint_objects s))))"

text \<open>
  The point value an Answer row contributes, read through its flag reference; used to
  state the sum the properties speak of.
\<close>

definition answer_point :: "store \<Rightarrow> answer \<Rightarrow> int" where
  "answer_point s a =
     (case answer_flag a of
        None \<Rightarrow> 0
      | Some i \<Rightarrow> (case get_flag s i of Inl e \<Rightarrow> 0 | Inr f \<Rightarrow> flag_point f))"

text \<open>
  Referential integrity of \<open>Answer.flag\<close>, which the foreign key gives: every non-null
  flag reference is the id of a stored Flag row.
\<close>

definition flag_refs_ok :: "store \<Rightarrow> bool" where
  "flag_refs_ok s =
     list_all (\<lambda>a. case answer_flag a of
                      None \<Rightarrow> True
                    | Some i \<Rightarrow> list_ex (\<lambda>f. flag_id f = i) (Flag_objects s))
       (Answer_objects s)"

section \<open>Visibility of questions and files\<close>

text \<open>\<open>QuestionManager.public\<close>: \<open>filter(is_public=True)\<close>.\<close>

definition QuestionManager_public :: "store \<Rightarrow> question list" where
  "QuestionManager_public s = filter question_is_public (Question_objects s)"

text \<open>\<open>self.file_set\<close>: the File rows whose foreign key is this question.\<close>

definition file_set :: "store \<Rightarrow> question \<Rightarrow> file_row list" where
  "file_set s q = filter (\<lambda>f. file_question f = question_id q) (File_objects s)"

text \<open>\<open>Question.files\<close>: \<open>self.file_set.filter(is_public=True)\<close>.\<close>

definition Question_files :: "store \<Rightarrow> question \<Rightarrow> file_row list" where
  "Question_files s self = filter file_is_public (file_set s self)"

text \<open>
  \<open>FileManager.public\<close>: \<open>filter(is_public=True, question__is_public=True)\<close>. The second
  condition joins the Question table on the foreign key.
\<close>

definition FileManager_public :: "store \<Rightarrow> file_row list" where
  "FileManager_public s =
     filter (\<lambda>f. file_is_public f \<and>
                 list_ex (\<lambda>q. question_id q = file_question f \<and> question_is_public q)
                   (Question_objects s))
       (File_objects s)"

section \<open>Team.token\<close>

text \<open>
  The two settings the token reads. \<open>time.time()\<close> and the quotient
  \<open>time.time() / settings.TEAM_TOKEN_INTERVAL\<close> are Python floats; they are modelled as
  real numbers, so the quotient is exact.
\<close>

record settings =
  TEAM_TOKEN_SECRET_KEY :: string
  TEAM_TOKEN_INTERVAL :: real

text \<open>Python's \<open>str\<close> of an integer, as \<open>format\<close> renders the fields \<open>{1}\<close> and \<open>{2}\<close>.\<close>

fun str_nat :: "nat \<Rightarrow> string" where
  "str_nat n =
     (if n < 10 then [''0123456789'' ! n]
      else str_nat (n div 10) @ [''0123456789'' ! (n mod 10)])"

definition str_int :: "int \<Rightarrow> string" where
  "str_int i = (if i < 0 then ''-'' @ str_nat (nat (- i)) else str_nat (nat i))"

text \<open>Python's \<open>int\<close> of a float truncates towards zero.\<close>

definition py_int :: "real \<Rightarrow> int" where
  "py_int x = (if x < 0 then \<lceil>x\<rceil> else \<lfloor>x\<rfloor>)"

text \<open>
  \<open>Team.token\<close>. The hash of \<open>hashlib\<close> is a parameter: \<open>sha1_hexdigest m\<close> is the hex digest
  of SHA-1 over the bytes \<open>m\<close>. A string is its UTF-8 bytes, so \<open>encode("utf-8")\<close> is the
  identity. Dividing by an interval of zero raises \<open>ZeroDivisionError\<close>.
\<close>

definition Team_token ::
  "(string \<Rightarrow> string) \<Rightarrow> settings \<Rightarrow> real \<Rightarrow> team \<Rightarrow> error + string" where
  "Team_token sha1_hexdigest settings time self =
     (if TEAM_TOKEN_INTERVAL settings = 0 then Inl ZeroDivisionError
      else Inr (sha1_hexdigest
                  (TEAM_TOKEN_SECRET_KEY settings @ ''_'' @ str_nat (team_id self) @ ''_'' @
                   str_int (py_int (time / TEAM_TOKEN_INTERVAL settings)))))"

section \<open>UserConnection.update\<close>

text \<open>The next value of an auto-incremented primary key.\<close>

definition next_id :: "nat list \<Rightarrow> nat" where
  "next_id ids = Suc (fold max ids 0)"

text \<open>
  The column \<open>ip\<close> is a \<open>GenericIPAddressField\<close>. Before a text is stored or looked up the
  field's \<open>get_prep_value\<close> normalises it when it is not empty and contains a colon; the
  normalisation \<open>clean_ipv6_address\<close> is a parameter, \<open>None\<close> where it raises
  \<open>ValidationError\<close>, which the field ignores. Any other text is kept as it is.
\<close>

definition ip_get_prep_value :: "(string \<rightharpoonup> string) \<Rightarrow> string \<Rightarrow> string" where
  "ip_get_prep_value clean_ipv6_address value =
     (if value \<noteq> [] \<and> CHR '':'' \<in> set value
      then (case clean_ipv6_address value of None \<Rightarrow> value | Some v \<Rightarrow> v)
      else value)"

text \<open>
  The field's \<open>get_db_prep_value\<close>: the prepared text, and NULL (\<open>None\<close>) for the empty
  text (\<open>value or None\<close>).
\<close>

definition ip_get_db_prep_value :: "(string \<rightharpoonup> string) \<Rightarrow> string \<Rightarrow> string option" where
  "ip_get_db_prep_value clean_ipv6_address value =
     (let v = ip_get_prep_value clean_ipv6_address value
      in if v = [] then None else Some v)"

text \<open>
  \<open>cls.objects.get(user=user, ip=ip)\<close>: the lookup compares the column with the database
  value of \<open>ip\<close>; a comparison with NULL matches no row. The result is the one matching
  row, \<open>DoesNotExist\<close> when there is none and \<open>MultipleObjectsReturned\<close> when there are
  several.
\<close>

definition UserConnection_get ::
  "(string \<rightharpoonup> string) \<Rightarrow> store \<Rightarrow> nat \<Rightarrow> string \<Rightarrow> error + user_connection" where
  "UserConnection_get clean_ipv6_address s user ip =
     (case ip_get_db_prep_value clean_ipv6_address ip of
        None \<Rightarrow> Inl DoesNotExist
      | Some v \<Rightarrow>
          (case filter (\<lambda>c. uc_user c = user \<and> uc_ip c = v) (UserConnection_objects s) of
             [] \<Rightarrow> Inl DoesNotExist
           | [c] \<Rightarrow> Inr c
           | _ \<Rightarrow> Inl MultipleObjectsReturned))"

text \<open>
  \<open>cls.objects.create(user=user, ip=ip)\<close>: the new object gets the next primary key and
  both timestamps (\<open>auto_now_add\<close>, \<open>auto_now\<close>) and keeps the text \<open>ip\<close> as passed; the row
  that is inserted holds the database value of \<open>ip\<close>. The insertion raises
  \<open>IntegrityError\<close> when that value is NULL (the column is not nullable) and when a row
  with this user and address is stored (\<open>unique_together\<close>).
\<close>

definition UserConnection_create ::
  "(string \<rightharpoonup> string) \<Rightarrow> store \<Rightarrow> datetime \<Rightarrow> nat \<Rightarrow> string
     \<Rightarrow> error + (user_connection \<times> store)" where
  "UserConnection_create clean_ipv6_address s now user ip =
     (let obj = \<lparr>created_at = now, updated_at = now,
                 uc_id = next_id (map uc_id (UserConnection_objects s)),
                 uc_user = user, uc_ip = ip\<rparr>
      in case ip_get_db_prep_value clean_ipv6_address ip of
           None \<Rightarrow> Inl IntegrityError
         | Some v \<Rightarrow>
             if list_ex (\<lambda>r. uc_user r = user \<and> uc_ip r = v) (UserConnection_objects s)
             then Inl IntegrityError
             else Inr (obj, s\<lparr>UserConnection_objects :=
                                UserConnection_objects s @ [obj\<lparr>uc_ip := v\<rparr>]\<rparr>))"

text \<open>
  \<open>cls.objects.get_or_create(user=user, ip=ip)\<close>: the row \<open>get\<close> finds, with
  \<open>created = False\<close>; when there is none, the object \<open>create\<close> makes, with
  \<open>created = True\<close>. When \<open>create\<close> raises \<open>IntegrityError\<close>, \<open>get\<close> is tried once more and
  the error is raised again if it still finds no row.
\<close>

definition get_or_create ::
  "(string \<rightharpoonup> string) \<Rightarrow> store \<Rightarrow> datetime \<Rightarrow> nat \<Rightarrow> string
     \<Rightarrow> error + (user_connection \<times> bool \<times> store)" where
  "get_or_create clean_ipv6_address s now user ip =
     (case UserConnection_get clean_ipv6_address s user ip of
        Inr c \<Rightarrow> Inr (c, False, s)
      | Inl DoesNotExist \<Rightarrow>
          (case UserConnection_create clean_ipv6_address s now user ip of
             Inr (obj, s') \<Rightarrow> Inr (obj, True, s')
           | Inl IntegrityError \<Rightarrow>
               (case UserConnection_get clean_ipv6_address s user ip of
                  Inr c \<Rightarrow> Inr (c, False, s)
                | Inl DoesNotExist \<Rightarrow> Inl IntegrityError
                | Inl e \<Rightarrow> Inl e)
           | Inl e \<Rightarrow> Inl e)
      | Inl e \<Rightarrow> Inl e)"

text \<open>
  \<open>user_connection.save()\<close>: \<open>auto_now\<close> sets \<open>updated_at\<close> to the current time, then the
  row of this primary key is overwritten with the object's columns, the address as its
  database value, or the row is inserted when no row has the key. The same two
  constraints as for \<open>create\<close> raise \<open>IntegrityError\<close>.
\<close>

definition UserConnection_save ::
  "(string \<rightharpoonup> string) \<Rightarrow> store \<Rightarrow> datetime \<Rightarrow> user_connection
     \<Rightarrow> error + (user_connection \<times> store)" where
  "UserConnection_save clean_ipv6_address s now c =
     (let c' = c\<lparr>updated_at := now\<rparr>;
          rows = UserConnection_objects s
      in case ip_get_db_prep_value clean_ipv6_address (uc_ip c') of
           None \<Rightarrow> Inl IntegrityError
         | Some v \<Rightarrow>
             if list_ex (\<lambda>r. uc_id r \<noteq> uc_id c' \<and> uc_user r = uc_user c' \<and> uc_ip r = v) rows
             then Inl IntegrityError
             else if list_ex (\<lambda>r. uc_id r = uc_id c') rows
             then Inr (c', s\<lparr>UserConnection_objects :=
                               map (\<lambda>r. if uc_id r = uc_id c' then c'\<lparr>uc_ip := v\<rparr> else r) rows\<rparr>)
             else Inr (c', s\<lparr>UserConnection_objects := rows @ [c'\<lparr>uc_ip := v\<rparr>]\<rparr>))"

text \<open>
  \<open>UserConnection.update(user, ip)\<close>; \<open>now\<close> is the clock's value during the call
  (\<open>datetime.datetime.now()\<close>).
\<close>

definition UserConnection_update ::
  "(string \<rightharpoonup> string) \<Rightarrow> store \<Rightarrow> datetime \<Rightarrow> user \<Rightarrow> string
     \<Rightarrow> error + (user_connection \<times> store)" where
  "UserConnection_update clean_ipv6_address s now user ip =
     (case get_or_create clean_ipv6_address s now (user_id user) ip of
        Inl e \<Rightarrow> Inl e
      | Inr (user_connection, created, s1) \<Rightarrow>
          if \<not> created
          then UserConnection_save clean_ipv6_address s1 now (user_connection\<lparr>updated_at := now\<rparr>)
          else Inr (user_connection, s1))"

text \<open>
  The invariant of the table: primary keys are distinct and, by \<open>unique_together\<close>, so
  are the pairs (user, ip).
\<close>

definition uc_table_ok :: "store \<Rightarrow> bool" where
  "uc_table_ok s =
     (distinct (map uc_id (UserConnection_objects s)) \<and>
      distinct (map (\<lambda>c. (uc_user c, uc_ip c)) (UserConnection_objects s)))"

section \<open>Team.set_password and Team.check_password\<close>

text \<open>
  The functions of \<open>django.contrib.auth.hashers\<close> are parameters: whether an encoded
  password is usable, the verification of a raw password against an encoded one by the
  hasher that encoded it, whether the encoding is a legacy one that must be upgraded
  (another algorithm than the preferred one, or outdated parameters), and
  \<open>make_password\<close> (with its salt).
\<close>

record hashers =
  is_password_usable :: "string \<Rightarrow> bool"
  verify :: "string \<Rightarrow> string \<Rightarrow> bool"
  must_update :: "string \<Rightarrow> bool"
  make_password :: "string \<Rightarrow> string"

text \<open>
  A Team object in memory: the columns of its row and the attribute \<open>_password\<close>, which
  is no column of the model and which only the setter of \<open>check_password\<close> assigns
  (\<open>None\<close> while the object has no such attribute, \<open>Some None\<close> once it is set to Python's
  \<open>None\<close>).
\<close>

record team_instance = team +
  team__password :: "string option option"

definition set_password :: "hashers \<Rightarrow> team_instance \<Rightarrow> string \<Rightarrow> team_instance" where
  "set_password h self password = self\<lparr>team_password := make_password h password\<rparr>"

text \<open>
  \<open>self.save(update_fields=["password"])\<close>: an UPDATE of the password column of the row
  with this primary key. No other column is written, and \<open>auto_now\<close> does not run for
  \<open>updated_at\<close>, which is not among the fields. When no row has the key, Django raises
  \<open>DatabaseError\<close>.
\<close>

definition save_password :: "store \<Rightarrow> team_instance \<Rightarrow> error + store" where
  "save_password s self =
     (if list_ex (\<lambda>r. team_id r = team_id self) (Team_objects s)
      then Inr (s\<lparr>Team_objects :=
                    map (\<lambda>r. if team_id r = team_id self
                              then r\<lparr>team_password := team_password self\<rparr> else r)
                      (Team_objects s)\<rparr>)
      else Inl DatabaseError)"

text \<open>The inner function \<open>setter\<close> of \<open>Team.check_password\<close>, on the object and the store.\<close>

definition setter ::
  "hashers \<Rightarrow> string \<Rightarrow> team_instance \<times> store \<Rightarrow> error + (team_instance \<times> store)" where
  "setter h raw_password st =
     (let self1 = set_password h (fst st) raw_password;
          self2 = self1\<lparr>team__password := Some None\<rparr>
      in case save_password (snd st) self2 of
           Inl e \<Rightarrow> Inl e
         | Inr s' \<Rightarrow> Inr (self2, s'))"

text \<open>
  Django's \<open>check_password(password, encoded, setter)\<close>: false for no password or an
  unusable encoding; otherwise the hasher's verdict, after calling \<open>setter\<close> when the
  password is correct and the encoding must be upgraded. \<open>st\<close> is the state the setter acts
  on.
\<close>

definition check_password ::
  "hashers \<Rightarrow> string option \<Rightarrow> string \<Rightarrow> (string \<Rightarrow> 'st \<Rightarrow> error + 'st) \<Rightarrow> 'st
     \<Rightarrow> error + (bool \<times> 'st)" where
  "check_password h password encoded setter_fn st =
     (case password of
        None \<Rightarrow> Inr (False, st)
      | Some p \<Rightarrow>
          if \<not> is_password_usable h encoded then Inr (False, st)
          else
            (let is_correct = verify h p encoded
             in if is_correct \<and> must_update h encoded
                then (case setter_fn p st of
                        Inl e \<Rightarrow> Inl e
                      | Inr st' \<Rightarrow> Inr (is_correct, st'))
                else Inr (is_correct, st)))"

definition Team_check_password ::
  "hashers \<Rightarrow> store \<Rightarrow> team_instance \<Rightarrow> string option
     \<Rightarrow> error + (bool \<times> team_instance \<times> store)" where
  "Team_check_password h s self raw_password =
     check_password h raw_password (team_password self) (setter h) (self, s)"

text \<open>
  What "only the password field of the team is written" says of two stores: every table
  but Team is the same, the Team table has the same rows in the same order, the rows of
  other teams are the same, and a row of the team differs at most in its password.
\<close>

definition only_password_written :: "nat \<Rightarrow> store \<Rightarrow> store \<Rightarrow> bool" where
  "only_password_written i s s' =
     (Question_objects s' = Question_objects s \<and> Flag_objects s' = Flag_objects s \<and>
      File_objects s' = File_objects s \<and>
      UserConnection_objects s' = UserConnection_objects s \<and>
      Answer_objects s' = Answer_objects s \<and> AttackPoint_objects s' = AttackPoint_objects s \<and>
      list_all2 (\<lambda>r r'. if team_id r = i then r' = r\<lparr>team_password := team_password r'\<rparr>
                         else r' = r)
        (Team_objects s) (Team_objects s'))"

section \<open>Config.get_value and Config.set_value\<close>

record config = templete +
  config_id :: nat
  config_key :: string
  config_value_str :: string

text \<open>
  \<open>pickle.loads\<close> and \<open>pickle.dumps\<close> are parameters; either can raise. The payload is a
  byte string.
\<close>

definition get_value :: "(string \<Rightarrow> error + 'v) \<Rightarrow> config \<Rightarrow> error + 'v" where
  "get_value pickle_loads self = pickle_loads (config_value_str self)"

definition set_value :: "('v \<Rightarrow> error + string) \<Rightarrow> config \<Rightarrow> 'v \<Rightarrow> error + config" where
  "set_value pickle_dumps self v =
     (case pickle_dumps v of
        Inl e \<Rightarrow> Inl e
      | Inr p \<Rightarrow> Inr (self\<lparr>config_value_str := p\<rparr>))"

text \<open>
  Values a caller can pass, for the examples: an integer, a text, and a function object
  such as a lambda, which \<open>pickle.dumps\<close> refuses with \<open>PicklingError\<close>.
\<close>

datatype py_value = PyInt int | PyStr string | PyFunction string

section \<open>The uniqueness constraints of Answer and AttackPoint\<close>

text \<open>
  Modelled from the spec: the insertion of an Answer row by the backing store. The source
  holds the declarations only (\<open>unique_together = (('team', 'flag'),)\<close> and the nullable
  foreign key \<open>flag\<close>); the check is made by the database. A row is rejected with
  \<open>IntegrityError\<close> when a stored row has the same team and the same flag; as in SQL, a
  null flag equals no flag, so a row without flag conflicts with nothing. An accepted
  row gets the next primary key and both timestamps, and is appended.
\<close>

definition Answer_conflict :: "answer list \<Rightarrow> answer \<Rightarrow> bool" where
  "Answer_conflict rows a =
     (case answer_flag a of
        None \<Rightarrow> False
      | Some f \<Rightarrow> list_ex (\<lambda>r. answer_team r = answer_team a \<and> answer_flag r = Some f) rows)"

definition Answer_insert :: "store \<Rightarrow> datetime \<Rightarrow> answer \<Rightarrow> error + (answer \<times> store)" where
  "Answer_insert s now a =
     (if Answer_conflict (Answer_objects s) a then Inl IntegrityError
      else
        (let a' = a\<lparr>created_at := now, updated_at := now,
                    answer_id := next_id (map answer_id (Answer_objects s))\<rparr>
         in Inr (a', s\<lparr>Answer_objects := Answer_objects s @ [a']\<rparr>)))"

text \<open>
  Modelled from the spec: a sequence of insertions, one after the other; the first
  rejected one ends it with its error.
\<close>

fun Answer_insert_all :: "store \<Rightarrow> datetime \<Rightarrow> answer list \<Rightarrow> error + store" where
  "Answer_insert_all s now [] = Inr s"
| "Answer_insert_all s now (a # as) =
     (case Answer_insert s now a of
        Inl e \<Rightarrow> Inl e
      | Inr (a', s') \<Rightarrow> Answer_insert_all s' now as)"

text \<open>\<open>Answer.is_correct\<close>: \<open>self.flag is not None\<close>.\<close>

definition is_correct :: "answer \<Rightarrow> bool" where
  "is_correct self = (answer_flag self \<noteq> None)"

text \<open>
  Modelled from the spec: the insertion of an AttackPoint row by the backing store; the
  source holds the declaration \<open>unique=True\<close> of \<open>token\<close> only. A row is rejected with
  \<open>IntegrityError\<close> when a stored row has the same token.
\<close>

definition AttackPoint_insert ::
  "store \<Rightarrow> datetime \<Rightarrow> attack_point \<Rightarrow> error + (attack_point \<times> store)" where
  "AttackPoint_insert s now p =
     (if list_ex (\<lambda>r. ap_token r = ap_token p) (AttackPoint_objects s) then Inl IntegrityError
      else
        (let p' = p\<lparr>created_at := now, updated_at := now,
                    ap_id := next_id (map ap_id (AttackPoint_objects s))\<rparr>
         in Inr (p', s\<lparr>AttackPoint_objects := AttackPoint_objects s @ [p']\<rparr>)))"

section \<open>Properties\<close>

subsection \<open>Sums\<close>


lemma foldl_add_sum_list: "foldl (+) (a::int) xs = a + sum_list xs"
  by (induction xs arbitrary: a) simp_all

lemma py_sum_sum_list: "py_sum xs = sum_list xs"
  by (simp add: py_sum_def foldl_add_sum_list)

subsection \<open>Rows and keys\<close>

lemma distinct_key_eq:
  "distinct (map k xs) \<Longrightarrow> x \<in> set xs \<Longrightarrow> y \<in> set xs \<Longrightarrow> k x = k y \<Longrightarrow> x = y"
  by (induction xs) (auto simp: image_iff)

lemma filter_map_preserved:
  "(\<And>x. x \<in> set xs \<Longrightarrow> P (g x) = P x) \<Longrightarrow> filter P (map g xs) = map g (filter P xs)"
  by (induction xs) simp_all

lemma filter_key_at_most_one:
  "distinct (map k xs) \<Longrightarrow> filter (\<lambda>x. k x = v) xs = a # b # rest \<Longrightarrow> False"
proof (induction xs arbitrary: a b rest)
  case Nil
  then show ?case by simp
next
  case (Cons x xs)
  show ?case
  proof (cases "k x = v")
    case True
    with Cons.prems(2) have "filter (\<lambda>x. k x = v) xs = b # rest" by simp
    then have "b \<in> set (filter (\<lambda>x. k x = v) xs)" by simp
    then have "b \<in> set xs" "k b = v" by simp_all
    from \<open>b \<in> set xs\<close> have "k b \<in> k ` set xs" by (rule imageI)
    with \<open>k b = v\<close> True Cons.prems(1) show False by simp
  next
    case False
    with Cons.prems(2) have "filter (\<lambda>x. k x = v) xs = a # b # rest" by simp
    with Cons.IH Cons.prems(1) show False by simp
  qed
qed

lemma fold_max_ge: "x \<in> set xs \<Longrightarrow> x \<le> fold max xs (a::nat)"
proof (induction xs arbitrary: a)
  case Nil
  then show ?case by simp
next
  case (Cons y ys)
  have mono: "a \<le> fold max ys a" for a :: nat
  proof (induction ys arbitrary: a)
    case Nil
    show ?case by simp
  next
    case (Cons z zs)
    have "a \<le> max z a" by simp
    also have "\<dots> \<le> fold max zs (max z a)" by (rule Cons.IH)
    finally show ?case by simp
  qed
  from Cons show ?case
  proof (cases "x = y")
    case True
    have "y \<le> max y a" by simp
    also have "\<dots> \<le> fold max ys (max y a)" by (rule mono)
    finally show ?thesis using True by simp
  next
    case False
    with Cons.prems have "x \<in> set ys" by simp
    from Cons.IH [OF this] show ?thesis by simp
  qed
qed

lemma next_id_fresh: "next_id ids \<notin> set ids"
proof
  assume "next_id ids \<in> set ids"
  from fold_max_ge [OF this, of 0] show False by (simp add: next_id_def)
qed

lemma list_all_mapI: "(\<And>x. P (g x)) \<Longrightarrow> list_all P (map g xs)"
  by (induction xs) simp_all

subsection \<open>Question.points\<close>

text \<open>
  Claim C7. For every question, \<open>Question.points\<close> is the sum of \<open>point\<close> over the Flag
  rows that belong to the question. A question whose flags are exactly two rows with
  points 50 and 100 has 150 points, and a question with no flag has 0 points.
\<close>

theorem Question_points_sum:
  "Question_points s q =
     (\<Sum>f\<leftarrow>filter (\<lambda>f. flag_question f = question_id q) (Flag_objects s). flag_point f)
   \<and> (\<forall>f1 f2. filter (\<lambda>f. flag_question f = question_id q) (Flag_objects s) = [f1, f2]
          \<and> flag_point f1 = 50 \<and> flag_point f2 = 100
        \<longrightarrow> Question_points s q = 150)
   \<and> (filter (\<lambda>f. flag_question f = question_id q) (Flag_objects s) = []
        \<longrightarrow> Question_points s q = 0)"
  by (simp add: Question_points_def flag_set_def py_sum_sum_list)

text \<open>
  The two examples on stored rows: question 7 owns flags 1 and 3 (flag 2 belongs to
  question 8), and in the second store it owns none.
\<close>

theorem Question_points_sum_witness:
  "Question_points
     \<lparr>Question_objects = [], 
      Flag_objects =
        [\<lparr>created_at = 0, updated_at = 0, flag_id = 1, flag_flag = ''FLAG{a}'',
          flag_question = 7, flag_point = 50\<rparr>,
         \<lparr>created_at = 0, updated_at = 0, flag_id = 2, flag_flag = ''FLAG{b}'',
          flag_question = 8, flag_point = 30\<rparr>,
         \<lparr>created_at = 0, updated_at = 0, flag_id = 3, flag_flag = ''FLAG{c}'',
          flag_question = 7, flag_point = 100\<rparr>],
      File_objects = [], Team_objects = [], UserConnection_objects = [],
      Answer_objects = [], AttackPoint_objects = []\<rparr>
     \<lparr>created_at = 0, updated_at = 0, question_id = 7, question_category = 1,
      question_ordering = 100, question_title = ''q'', question_sentence = ''s'',
      question_max_answers = None, question_max_failure = None,
      question_is_public = True\<rparr> = 150
   \<and> Question_points
     \<lparr>Question_objects = [], 
      Flag_objects =
        [\<lparr>created_at = 0, updated_at = 0, flag_id = 2, flag_flag = ''FLAG{b}'',
          flag_question = 8, flag_point = 30\<rparr>],
      File_objects = [], Team_objects = [], UserConnection_objects = [],
      Answer_objects = [], AttackPoint_objects = []\<rparr>
     \<lparr>created_at = 0, updated_at = 0, question_id = 7, question_category = 1,
      question_ordering = 100, question_title = ''q'', question_sentence = ''s'',
      question_max_answers = None, question_max_failure = None,
      question_is_public = True\<rparr> = 0"
  (is "Question_points ?s1 ?q = 150 \<and> Question_points ?s0 ?q = 0")
proof
  have "filter (\<lambda>f. flag_question f = question_id ?q) (Flag_objects ?s1) =
          [\<lparr>created_at = 0, updated_at = 0, flag_id = 1, flag_flag = ''FLAG{a}'',
            flag_question = 7, flag_point = 50\<rparr>,
           \<lparr>created_at = 0, updated_at = 0, flag_id = 3, flag_flag = ''FLAG{c}'',
            flag_question = 7, flag_point = 100\<rparr>]"
    by simp
  with Question_points_sum [of ?s1 ?q] show "Question_points ?s1 ?q = 150"
    by simp
next
  have "filter (\<lambda>f. flag_question f = question_id ?q) (Flag_objects ?s0) = []"
    by simp
  with Question_points_sum [of ?s0 ?q] show "Question_points ?s0 ?q = 0"
    by blast
qed

subsection \<open>Team.points and User.points\<close>

lemma add_flag_points_sum:
  "list_all (\<lambda>a. case answer_flag a of None \<Rightarrow> False
                  | Some i \<Rightarrow> list_ex (\<lambda>f. flag_id f = i) (Flag_objects s)) as
   \<Longrightarrow> add_flag_points s points as = Inr (points + (\<Sum>a\<leftarrow>as. answer_point s a))"
proof (induction as arbitrary: points)
  case Nil
  then show ?case by simp
next
  case (Cons a as)
  from Cons.prems obtain i where i: "answer_flag a = Some i"
    and ex: "list_ex (\<lambda>f. flag_id f = i) (Flag_objects s)"
    by (auto split: option.splits)
  from ex have "find (\<lambda>f. flag_id f = i) (Flag_objects s) \<noteq> None"
    by (auto simp: list_ex_iff find_None_iff)
  then obtain f where f: "find (\<lambda>f. flag_id f = i) (Flag_objects s) = Some f"
    by blast
  from Cons.prems have rest: "list_all (\<lambda>a. case answer_flag a of None \<Rightarrow> False
                  | Some i \<Rightarrow> list_ex (\<lambda>f. flag_id f = i) (Flag_objects s)) as"
    by simp
  show ?case
    using i f Cons.IH [OF rest] by (simp add: get_flag_def answer_point_def)
qed

lemma add_attack_points_sum:
  "add_attack_points points ps = points + (\<Sum>p\<leftarrow>ps. ap_point p)"
  by (induction ps arbitrary: points) simp_all

lemma refs_filter:
  assumes "flag_refs_ok s"
  shows "list_all (\<lambda>a. case answer_flag a of None \<Rightarrow> False
                  | Some i \<Rightarrow> list_ex (\<lambda>f. flag_id f = i) (Flag_objects s))
           (filter (\<lambda>a. answer_flag a \<noteq> None) (filter P (Answer_objects s)))"
  using assms unfolding flag_refs_ok_def list_all_iff
  by (auto split: option.splits)

text \<open>
  Claim C1. For every team, \<open>Team.points\<close> is the sum of \<open>flag.point\<close> over the team's
  Answer rows whose flag reference is not null, plus the sum of \<open>point\<close> over the team's
  AttackPoint rows; \<open>User.points\<close> is the same sum over the user's rows. The foreign key
  of \<open>Answer.flag\<close> is assumed to hold (\<open>flag_refs_ok\<close>), so that every
  \<open>answer.flag\<close> is found.
\<close>

theorem points_sum:
  assumes "flag_refs_ok s"
  shows "Team_points s t =
           Inr ((\<Sum>a\<leftarrow>filter (\<lambda>a. answer_team a = team_id t \<and> answer_flag a \<noteq> None)
                       (Answer_objects s). answer_point s a)
              + (\<Sum>p\<leftarrow>filter (\<lambda>p. ap_team p = team_id t) (AttackPoint_objects s). ap_point p))
       \<and> User_points s u =
           Inr ((\<Sum>a\<leftarrow>filter (\<lambda>a. answer_user a = user_id u \<and> answer_flag a \<noteq> None)
                       (Answer_objects s). answer_point s a)
              + (\<Sum>p\<leftarrow>filter (\<lambda>p. ap_user p = user_id u) (AttackPoint_objects s). ap_point p))"
proof
  have eq: "filter (\<lambda>a. answer_flag a \<noteq> None) (filter P (Answer_objects s)) =
            filter (\<lambda>a. P a \<and> answer_flag a \<noteq> None) (Answer_objects s)" for P
    by (simp add: conj_commute)
  have fl: "add_flag_points s 0 (filter (\<lambda>a. answer_flag a \<noteq> None) (filter P (Answer_objects s))) =
            Inr (\<Sum>a\<leftarrow>filter (\<lambda>a. P a \<and> answer_flag a \<noteq> None) (Answer_objects s).
                   answer_point s a)" for P
    using add_flag_points_sum [OF refs_filter [OF assms], of 0 P] by (simp only: eq add_0)
  show "Team_points s t =
           Inr ((\<Sum>a\<leftarrow>filter (\<lambda>a. answer_team a = team_id t \<and> answer_flag a \<noteq> None)
                       (Answer_objects s). answer_point s a)
              + (\<Sum>p\<leftarrow>filter (\<lambda>p. ap_team p = team_id t) (AttackPoint_objects s). ap_point p))"
    unfolding Team_points_def Let_def fl
    by (simp only: sum.case add_attack_points_sum)
  show "User_points s u =
           Inr ((\<Sum>a\<leftarrow>filter (\<lambda>a. answer_user a = user_id u \<and> answer_flag a \<noteq> None)
                       (Answer_objects s). answer_point s a)
              + (\<Sum>p\<leftarrow>filter (\<lambda>p. ap_user p = user_id u) (AttackPoint_objects s). ap_point p))"
    unfolding User_points_def Let_def fl
    by (simp only: sum.case add_attack_points_sum)
qed

text \<open>
  Team 3 has two correct answers (50 and 30), one incorrect answer and one attack point
  of 5; user 11 has the answer worth 50 and that attack point.
\<close>

theorem points_sum_witness:
  "Team_points
     \<lparr>Question_objects = [],
      Flag_objects =
        [\<lparr>created_at = 0, updated_at = 0, flag_id = 1, flag_flag = ''FLAG{a}'',
          flag_question = 7, flag_point = 50\<rparr>,
         \<lparr>created_at = 0, updated_at = 0, flag_id = 2, flag_flag = ''FLAG{b}'',
          flag_question = 8, flag_point = 30\<rparr>],
      File_objects = [], Team_objects = [], UserConnection_objects = [],
      Answer_objects =
        [\<lparr>created_at = 5, updated_at = 5, answer_id = 1, answer_user = 11, answer_team = 3,
          answer_question = 7, answer_flag = Some 1, answer_answer = ''FLAG{a}''\<rparr>,
         \<lparr>created_at = 6, updated_at = 6, answer_id = 2, answer_user = 12, answer_team = 3,
          answer_question = 8, answer_flag = None, answer_answer = ''guess''\<rparr>,
         \<lparr>created_at = 7, updated_at = 7, answer_id = 3, answer_user = 12, answer_team = 3,
          answer_question = 8, answer_flag = Some 2, answer_answer = ''FLAG{b}''\<rparr>,
         \<lparr>created_at = 8, updated_at = 8, answer_id = 4, answer_user = 20, answer_team = 4,
          answer_question = 8, answer_flag = Some 2, answer_answer = ''FLAG{b}''\<rparr>],
      AttackPoint_objects =
        [\<lparr>created_at = 9, updated_at = 9, ap_id = 1, ap_user = 11, ap_team = 3,
          ap_question = 7, ap_token = ''tok1'', ap_point = 5\<rparr>,
         \<lparr>created_at = 9, updated_at = 9, ap_id = 2, ap_user = 20, ap_team = 4,
          ap_question = 7, ap_token = ''tok2'', ap_point = 9\<rparr>]\<rparr>
     \<lparr>created_at = 0, updated_at = 0, team_id = 3, team_name = ''t3'',
      team_password = ''h'', team_last_score_time = None\<rparr> = Inr 85
   \<and> User_points
     \<lparr>Question_objects = [],
      Flag_objects =
        [\<lparr>created_at = 0, updated_at = 0, flag_id = 1, flag_flag = ''FLAG{a}'',
          flag_question = 7, flag_point = 50\<rparr>,
         \<lparr>created_at = 0, updated_at = 0, flag_id = 2, flag_flag = ''FLAG{b}'',
          flag_question = 8, flag_point = 30\<rparr>],
      File_objects = [], Team_objects = [], UserConnection_objects = [],
      Answer_objects =
        [\<lparr>created_at = 5, updated_at = 5, answer_id = 1, answer_user = 11, answer_team = 3,
          answer_question = 7, answer_flag = Some 1, answer_answer = ''FLAG{a}''\<rparr>,
         \<lparr>created_at = 6, updated_at = 6, answer_id = 2, answer_user = 12, answer_team = 3,
          answer_question = 8, answer_flag = None, answer_answer = ''guess''\<rparr>,
         \<lparr>created_at = 7, updated_at = 7, answer_id = 3, answer_user = 12, answer_team = 3,
          answer_question = 8, answer_flag = Some 2, answer_answer = ''FLAG{b}''\<rparr>,
         \<lparr>created_at = 8, updated_at = 8, answer_id = 4, answer_user = 20, answer_team = 4,
          answer_question = 8, answer_flag = Some 2, answer_answer = ''FLAG{b}''\<rparr>],
      AttackPoint_objects =
        [\<lparr>created_at = 9, updated_at = 9, ap_id = 1, ap_user = 11, ap_team = 3,
          ap_question = 7, ap_token = ''tok1'', ap_point = 5\<rparr>,
         \<lparr>created_at = 9, updated_at = 9, ap_id = 2, ap_user = 20, ap_team = 4,
          ap_question = 7, ap_token = ''tok2'', ap_point = 9\<rparr>]\<rparr>
     \<lparr>created_at = 0, updated_at = 0, user_id = 11, user_username = ''alice'',
      user_team = Some 3, user_seat = ''A1'', user_last_score_time = None\<rparr> = Inr 55"
  (is "Team_points ?s ?t = Inr 85 \<and> User_points ?s ?u = Inr 55")
proof -
  have ok: "flag_refs_ok ?s"
    by (simp add: flag_refs_ok_def)
  show ?thesis
    using points_sum [OF ok, of ?t ?u]
    by (simp add: answer_point_def get_flag_def)
qed

subsection \<open>Public files\<close>

text \<open>
  The per-question list \<open>Question.files\<close> does not look at the question's own
  \<open>is_public\<close>: a public file of a private question is listed there, so the equivalence
  "listed iff the file and its question are both public" fails for it.
\<close>

theorem Question_files_private_counterexample:
  "\<not> (\<lparr>created_at = 0, updated_at = 0, file_id = 1, file_question = 7,
         file_name = ''hint.txt'', file_file = ''question/hint.txt'', file_is_public = True\<rparr>
        \<in> set (Question_files
             \<lparr>Question_objects =
                [\<lparr>created_at = 0, updated_at = 0, question_id = 7, question_category = 1,
                  question_ordering = 100, question_title = ''q'', question_sentence = ''s'',
                  question_max_answers = None, question_max_failure = None,
                  question_is_public = False\<rparr>],
              Flag_objects = [],
              File_objects =
                [\<lparr>created_at = 0, updated_at = 0, file_id = 1, file_question = 7,
                  file_name = ''hint.txt'', file_file = ''question/hint.txt'',
                  file_is_public = True\<rparr>],
              Team_objects = [], UserConnection_objects = [],
              Answer_objects = [], AttackPoint_objects = []\<rparr>
             \<lparr>created_at = 0, updated_at = 0, question_id = 7, question_category = 1,
              question_ordering = 100, question_title = ''q'', question_sentence = ''s'',
              question_max_answers = None, question_max_failure = None,
              question_is_public = False\<rparr>)
       \<longleftrightarrow>
         file_is_public
           \<lparr>created_at = 0, updated_at = 0, file_id = 1, file_question = 7,
            file_name = ''hint.txt'', file_file = ''question/hint.txt'', file_is_public = True\<rparr>
         \<and> question_is_public
           \<lparr>created_at = 0, updated_at = 0, question_id = 7, question_category = 1,
            question_ordering = 100, question_title = ''q'', question_sentence = ''s'',
            question_max_answers = None, question_max_failure = None,
            question_is_public = False\<rparr>)"
  by (simp add: Question_files_def file_set_def)

text \<open>
  Claim C4, as the code has it. For every stored File \<open>f\<close> and its Question \<open>q\<close>: \<open>f\<close> is in the
  manager's list \<open>File.objects.public()\<close> if and only if \<open>File.is_public\<close> and
  \<open>Question.is_public\<close> are both true, and \<open>f\<close> is in \<open>q.files\<close> if and only if
  \<open>File.is_public\<close> is true. So a file with \<open>is_public = False\<close> is in neither list even
  when its question is public, and a file with \<open>is_public = True\<close> of a private question is
  excluded from \<open>File.objects.public()\<close>.
\<close>

theorem public_files_iff:
  assumes "f \<in> set (File_objects s)"
    and "q \<in> set (Question_objects s)"
    and "question_id q = file_question f"
    and "distinct (map question_id (Question_objects s))"
  shows "(f \<in> set (FileManager_public s) \<longleftrightarrow> file_is_public f \<and> question_is_public q)
       \<and> (f \<in> set (Question_files s q) \<longleftrightarrow> file_is_public f)"
proof
  have uniq: "q' = q" if "q' \<in> set (Question_objects s)" "question_id q' = file_question f" for q'
    using distinct_key_eq [OF assms(4) that(1) assms(2)] that(2) assms(3) by simp
  have mem: "f \<in> set (FileManager_public s) \<longleftrightarrow>
             file_is_public f \<and>
             (\<exists>q'\<in>set (Question_objects s). question_id q' = file_question f \<and> question_is_public q')"
    using assms(1) by (simp add: FileManager_public_def list_ex_iff)
  have "(\<exists>q'\<in>set (Question_objects s). question_id q' = file_question f \<and> question_is_public q')
          \<longleftrightarrow> question_is_public q"
  proof
    assume "\<exists>q'\<in>set (Question_objects s). question_id q' = file_question f \<and> question_is_public q'"
    then obtain q' where q': "q' \<in> set (Question_objects s)" "question_id q' = file_question f"
      "question_is_public q'" by (elim bexE conjE)
    from uniq [OF q'(1,2)] q'(3) show "question_is_public q" by (simp only:)
  next
    assume "question_is_public q"
    with assms(2,3) show "\<exists>q'\<in>set (Question_objects s). question_id q' = file_question f \<and> question_is_public q'"
      by (intro bexI [of _ q] conjI)
  qed
  with mem show "f \<in> set (FileManager_public s) \<longleftrightarrow> file_is_public f \<and> question_is_public q"
    by (simp only:)
  show "f \<in> set (Question_files s q) \<longleftrightarrow> file_is_public f"
    using assms(1,3) by (simp add: Question_files_def file_set_def)
qed

text \<open>A public file of a private question: not in the manager's list, in \<open>Question.files\<close>.\<close>

theorem public_files_iff_witness:
  "(\<lparr>created_at = 0, updated_at = 0, file_id = 1, file_question = 7,
     file_name = ''hint.txt'', file_file = ''question/hint.txt'', file_is_public = True\<rparr>
      \<notin> set (FileManager_public
             \<lparr>Question_objects =
                [\<lparr>created_at = 0, updated_at = 0, question_id = 7, question_category = 1,
                  question_ordering = 100, question_title = ''q'', question_sentence = ''s'',
                  question_max_answers = None, question_max_failure = None,
                  question_is_public = False\<rparr>],
              Flag_objects = [],
              File_objects =
                [\<lparr>created_at = 0, updated_at = 0, file_id = 1, file_question = 7,
                  file_name = ''hint.txt'', file_file = ''question/hint.txt'',
                  file_is_public = True\<rparr>],
              Team_objects = [], UserConnection_objects = [],
              Answer_objects = [], AttackPoint_objects = []\<rparr>))
   \<and> \<lparr>created_at = 0, updated_at = 0, file_id = 1, file_question = 7,
       file_name = ''hint.txt'', file_file = ''question/hint.txt'', file_is_public = True\<rparr>
      \<in> set (Question_files
             \<lparr>Question_objects =
                [\<lparr>created_at = 0, updated_at = 0, question_id = 7, question_category = 1,
                  question_ordering = 100, question_title = ''q'', question_sentence = ''s'',
                  question_max_answers = None, question_max_failure = None,
                  question_is_public = False\<rparr>],
              Flag_objects = [],
              File_objects =
                [\<lparr>created_at = 0, updated_at = 0, file_id = 1, file_question = 7,
                  file_name = ''hint.txt'', file_file = ''question/hint.txt'',
                  file_is_public = True\<rparr>],
              Team_objects = [], UserConnection_objects = [],
              Answer_objects = [], AttackPoint_objects = []\<rparr>
             \<lparr>created_at = 0, updated_at = 0, question_id = 7, question_category = 1,
              question_ordering = 100, question_title = ''q'', question_sentence = ''s'',
              question_max_answers = None, question_max_failure = None,
              question_is_public = False\<rparr>)"
  (is "?f \<notin> set (FileManager_public ?s) \<and> ?f \<in> set (Question_files ?s ?q)")
proof -
  have h1: "?f \<in> set (File_objects ?s)" by simp
  have h2: "?q \<in> set (Question_objects ?s)" by simp
  have h3: "question_id ?q = file_question ?f" by simp
  have h4: "distinct (map question_id (Question_objects ?s))" by simp
  from public_files_iff [OF h1 h2 h3 h4] show ?thesis by simp
qed


subsection \<open>Team.token\<close>

text \<open>
  Claim C2. The token is a function of the secret key, the team's id and the bucket index
  \<open>int(time / interval)\<close> only: two computations with the same key, the same team id and
  times in the same bucket return the same digest, whatever the rest of the team's row
  and of the settings is. In particular a team's token is the same at any two times of
  one bucket.
\<close>

theorem token_same_bucket:
  assumes "TEAM_TOKEN_INTERVAL cfg \<noteq> 0" and "TEAM_TOKEN_INTERVAL cfg' \<noteq> 0"
    and "TEAM_TOKEN_SECRET_KEY cfg = TEAM_TOKEN_SECRET_KEY cfg'"
    and "team_id self = team_id self'"
    and "py_int (time / TEAM_TOKEN_INTERVAL cfg) = py_int (time' / TEAM_TOKEN_INTERVAL cfg')"
  shows "\<exists>d. Team_token sha1_hexdigest cfg time self = Inr d
           \<and> Team_token sha1_hexdigest cfg' time' self' = Inr d"
  using assms by (simp add: Team_token_def)

text \<open>
  With an interval of 60 the times 130 and 170 are both in bucket 2. The hash is
  instantiated by the identity, which shows the hashed message.
\<close>

theorem token_same_bucket_witness:
  "Team_token (\<lambda>m. m) \<lparr>TEAM_TOKEN_SECRET_KEY = ''s3cr3t'', TEAM_TOKEN_INTERVAL = 60\<rparr> 130
     \<lparr>created_at = 0, updated_at = 0, team_id = 3, team_name = ''t3'',
      team_password = ''h'', team_last_score_time = None\<rparr> = Inr ''s3cr3t_3_2''
   \<and> Team_token (\<lambda>m. m) \<lparr>TEAM_TOKEN_SECRET_KEY = ''s3cr3t'', TEAM_TOKEN_INTERVAL = 60\<rparr> 170
     \<lparr>created_at = 0, updated_at = 0, team_id = 3, team_name = ''t3'',
      team_password = ''h'', team_last_score_time = None\<rparr> = Inr ''s3cr3t_3_2''"
  (is "Team_token ?h ?c 130 ?t = _ \<and> Team_token ?h ?c 170 ?t = _")
proof -
  have i: "TEAM_TOKEN_INTERVAL ?c \<noteq> 0" by simp
  have b: "py_int (130 / TEAM_TOKEN_INTERVAL ?c) = py_int (170 / TEAM_TOKEN_INTERVAL ?c)"
    by (simp add: py_int_def)
  have "\<exists>d. Team_token ?h ?c 130 ?t = Inr d \<and> Team_token ?h ?c 170 ?t = Inr d"
    by (rule token_same_bucket [OF i i refl refl b])
  then have same: "Team_token ?h ?c 170 ?t = Team_token ?h ?c 130 ?t"
    by (elim exE conjE) (rule trans [OF _ sym])
  have e1: "Team_token ?h ?c 130 ?t = Inr ''s3cr3t_3_2''"
    by (simp add: Team_token_def py_int_def str_int_def)
  from same e1 have e2: "Team_token ?h ?c 170 ?t = Inr ''s3cr3t_3_2''"
    by (rule trans)
  from e1 e2 show ?thesis by (rule conjI)
qed

subsection \<open>UserConnection.update\<close>

lemma ip_without_colon_kept:
  "ip \<noteq> [] \<Longrightarrow> CHR '':'' \<notin> set ip \<Longrightarrow> ip_get_db_prep_value clean_ipv6_address ip = Some ip"
  by (simp add: ip_get_db_prep_value_def ip_get_prep_value_def)

lemma filter_single_mem:
  "filter P xs = [c] \<Longrightarrow> c \<in> set xs \<and> P c"
proof -
  assume f: "filter P xs = [c]"
  have "c \<in> set [c]" by simp
  then have "c \<in> set (filter P xs)" unfolding f .
  then show ?thesis by simp
qed

lemma filter_single_only:
  "filter P xs = [c] \<Longrightarrow> r \<in> set xs \<Longrightarrow> P r \<Longrightarrow> r = c"
proof -
  assume f: "filter P xs = [c]" and r: "r \<in> set xs" and p: "P r"
  from r p have "r \<in> set (filter P xs)" by simp
  then have "r \<in> set [c]" unfolding f .
  then show ?thesis by simp
qed

lemma update_existing:
  assumes ids: "distinct (map uc_id (UserConnection_objects s))"
    and one: "filter (\<lambda>c. uc_user c = user_id user \<and> uc_ip c = v) (UserConnection_objects s) = [c]"
    and prep: "ip_get_db_prep_value clean ip = Some v"
    and stable: "ip_get_db_prep_value clean v = Some v"
  shows "UserConnection_update clean s now user ip =
           Inr (c\<lparr>updated_at := now\<rparr>,
                s\<lparr>UserConnection_objects :=
                    map (\<lambda>r. if uc_id r = uc_id c then c\<lparr>updated_at := now\<rparr> else r)
                      (UserConnection_objects s)\<rparr>)"
proof -
  from filter_single_mem [OF one] have mem: "c \<in> set (UserConnection_objects s)"
    and cu: "uc_user c = user_id user" and cv: "uc_ip c = v" by simp_all
  from mem have ex: "list_ex (\<lambda>r. uc_id r = uc_id c) (UserConnection_objects s)"
    unfolding list_ex_iff by (rule bexI [rotated]) (rule refl)
  have noconf: "\<not> list_ex (\<lambda>r. uc_id r \<noteq> uc_id c \<and> uc_user r = uc_user c \<and> uc_ip r = v)
                    (UserConnection_objects s)"
  proof
    assume "list_ex (\<lambda>r. uc_id r \<noteq> uc_id c \<and> uc_user r = uc_user c \<and> uc_ip r = v)
              (UserConnection_objects s)"
    then obtain r where r: "r \<in> set (UserConnection_objects s)" "uc_id r \<noteq> uc_id c"
      "uc_user r = uc_user c" "uc_ip r = v"
      unfolding list_ex_iff by (elim bexE conjE)
    from filter_single_only [OF one r(1)] r(3,4) cu have "r = c" by simp
    with r(2) show False by simp
  qed
  have same: "c\<lparr>updated_at := now, uc_ip := v\<rparr> = c\<lparr>updated_at := now\<rparr>"
    using cv by simp
  have get: "get_or_create clean s now (user_id user) ip = Inr (c, False, s)"
    by (simp add: get_or_create_def UserConnection_get_def prep one)
  have save: "UserConnection_save clean s now (c\<lparr>updated_at := now\<rparr>) =
          Inr (c\<lparr>updated_at := now\<rparr>,
                s\<lparr>UserConnection_objects :=
                    map (\<lambda>r. if uc_id r = uc_id c then c\<lparr>updated_at := now\<rparr> else r)
                      (UserConnection_objects s)\<rparr>)"
    using noconf ex by (simp add: UserConnection_save_def Let_def cv stable same)
  show ?thesis
    by (simp add: UserConnection_update_def get save)
qed

lemma rows_after_existing:
  assumes ids: "distinct (map uc_id rows)"
    and one: "filter (\<lambda>c. uc_user c = u \<and> uc_ip c = ip) rows = [c]"
  shows "filter (\<lambda>c. uc_user c = u \<and> uc_ip c = ip)
           (map (\<lambda>r. if uc_id r = uc_id c then c\<lparr>updated_at := now\<rparr> else r) rows)
         = [c\<lparr>updated_at := now\<rparr>]"
proof -
  from filter_single_mem [OF one]
  have mem: "c \<in> set rows" and mc: "uc_user c = u \<and> uc_ip c = ip" by simp_all
  have pres: "(uc_user (if uc_id r = uc_id c then c\<lparr>updated_at := now\<rparr> else r) = u \<and>
               uc_ip (if uc_id r = uc_id c then c\<lparr>updated_at := now\<rparr> else r) = ip)
              = (uc_user r = u \<and> uc_ip r = ip)" if "r \<in> set rows" for r
  proof (cases "uc_id r = uc_id c")
    case True
    from distinct_key_eq [OF ids that mem True] mc show ?thesis by simp
  next
    case False
    then show ?thesis by simp
  qed
  have "filter (\<lambda>c. uc_user c = u \<and> uc_ip c = ip)
           (map (\<lambda>r. if uc_id r = uc_id c then c\<lparr>updated_at := now\<rparr> else r) rows)
        = map (\<lambda>r. if uc_id r = uc_id c then c\<lparr>updated_at := now\<rparr> else r)
            (filter (\<lambda>c. uc_user c = u \<and> uc_ip c = ip) rows)"
    by (rule filter_map_preserved) (rule pres)
  then show ?thesis by (simp add: one)
qed

lemma update_created:
  assumes none: "filter (\<lambda>c. uc_user c = user_id user \<and> uc_ip c = v) (UserConnection_objects s) = []"
    and prep: "ip_get_db_prep_value clean ip = Some v"
  shows "UserConnection_update clean s now user ip =
           Inr (\<lparr>created_at = now, updated_at = now,
                 uc_id = next_id (map uc_id (UserConnection_objects s)),
                 uc_user = user_id user, uc_ip = ip\<rparr>,
                s\<lparr>UserConnection_objects := UserConnection_objects s @
                   [\<lparr>created_at = now, updated_at = now,
                     uc_id = next_id (map uc_id (UserConnection_objects s)),
                     uc_user = user_id user, uc_ip = v\<rparr>]\<rparr>)"
proof -
  from none have noex: "\<not> list_ex (\<lambda>r. uc_user r = user_id user \<and> uc_ip r = v)
                            (UserConnection_objects s)"
    by (simp add: list_ex_iff filter_empty_conv)
  have get: "UserConnection_get clean s (user_id user) ip = Inl DoesNotExist"
    by (simp add: UserConnection_get_def prep none)
  have create: "UserConnection_create clean s now (user_id user) ip =
           Inr (\<lparr>created_at = now, updated_at = now,
                 uc_id = next_id (map uc_id (UserConnection_objects s)),
                 uc_user = user_id user, uc_ip = ip\<rparr>,
                s\<lparr>UserConnection_objects := UserConnection_objects s @
                   [\<lparr>created_at = now, updated_at = now,
                     uc_id = next_id (map uc_id (UserConnection_objects s)),
                     uc_user = user_id user, uc_ip = v\<rparr>]\<rparr>)"
    using noex by (simp add: UserConnection_create_def Let_def prep)
  show ?thesis
    by (simp add: UserConnection_update_def get_or_create_def get create)
qed

lemma update_first:
  assumes ok: "uc_table_ok s"
    and prep: "ip_get_db_prep_value clean ip = Some v"
    and stable: "ip_get_db_prep_value clean v = Some v"
  shows "\<exists>c1 s1. UserConnection_update clean s t1 user ip = Inr (c1, s1)
           \<and> filter (\<lambda>c. uc_user c = user_id user \<and> uc_ip c = v) (UserConnection_objects s1)
               = [c1\<lparr>uc_ip := v\<rparr>]
           \<and> updated_at c1 = t1
           \<and> (uc_ip c1 = ip \<or> uc_ip c1 = v)
           \<and> distinct (map uc_id (UserConnection_objects s1))"
proof -
  let ?M = "\<lambda>c. uc_user c = user_id user \<and> uc_ip c = v"
  let ?rows = "UserConnection_objects s"
  from ok have ids: "distinct (map uc_id ?rows)"
    and pairs: "distinct (map (\<lambda>c. (uc_user c, uc_ip c)) ?rows)"
    by (simp_all add: uc_table_ok_def)
  have Meq: "?M = (\<lambda>c. (uc_user c, uc_ip c) = (user_id user, v))" by (rule ext) simp
  consider (none) "filter ?M ?rows = []" | (one) c where "filter ?M ?rows = [c]"
    | (many) a b rest where "filter ?M ?rows = a # b # rest"
    by (cases "filter ?M ?rows" rule: list.exhaust [case_product list.exhaust])
      (metis list.exhaust)+
  then show ?thesis
  proof cases
    case none
    let ?c = "\<lparr>created_at = t1, updated_at = t1, uc_id = next_id (map uc_id ?rows),
               uc_user = user_id user, uc_ip = ip\<rparr>"
    have "distinct (map uc_id (?rows @ [?c\<lparr>uc_ip := v\<rparr>]))"
      using ids next_id_fresh [of "map uc_id ?rows"] by simp
    then show ?thesis
      by (simp only: update_created [OF none prep]) (simp add: none)
  next
    case (one c)
    from filter_single_mem [OF one] have cv: "uc_ip c = v" by simp
    have idp: "(\<lambda>x. uc_id (if uc_id x = uc_id c then c\<lparr>updated_at := t1\<rparr> else x)) = uc_id"
      by (rule ext) simp
    show ?thesis
      by (simp only: update_existing [OF ids one prep stable])
        (simp add: rows_after_existing [OF ids one] o_def ids idp cv)
  next
    case (many a b rest)
    from filter_key_at_most_one [OF pairs many [unfolded Meq]] show ?thesis ..
  qed
qed

text \<open>
  The address field stores no empty text: \<open>update(user, '')\<close> raises \<open>IntegrityError\<close>, so
  the property does not hold for every text \<open>ip\<close>.
\<close>

theorem UserConnection_update_empty_ip_counterexample:
  "UserConnection_update Map.empty
     \<lparr>Question_objects = [], Flag_objects = [], File_objects = [], Team_objects = [],
      UserConnection_objects =
        [\<lparr>created_at = 10, updated_at = 10, uc_id = 1, uc_user = 12, uc_ip = ''10.0.0.1''\<rparr>],
      Answer_objects = [], AttackPoint_objects = []\<rparr>
     100
     \<lparr>created_at = 0, updated_at = 0, user_id = 11, user_username = ''alice'',
      user_team = Some 3, user_seat = ''A1'', user_last_score_time = None\<rparr>
     ''''
   = Inl IntegrityError"
  by (simp add: UserConnection_update_def get_or_create_def UserConnection_get_def
        UserConnection_create_def ip_get_db_prep_value_def ip_get_prep_value_def Let_def)

text \<open>
  Claim C5, as the code has it. Let the address field store \<open>ip\<close> as the non-empty text
  \<open>v\<close>, and \<open>v\<close> as itself (\<open>v\<close> is \<open>ip\<close> for every non-empty text without a colon, and the
  normal form of an IPv6 text). On a table that satisfies its keys, two calls of
  \<open>UserConnection.update(user, ip)\<close>, at clock values \<open>t1\<close> and \<open>t2\<close>, both succeed. After
  each call the pair (user, \<open>v\<close>) has exactly one row, the row of the object the call
  returns; the first call's object carries the text \<open>ip\<close> or \<open>v\<close>. The second call inserts
  nothing and returns that row with \<open>updated_at\<close> set to \<open>t2\<close>.
\<close>

theorem UserConnection_update_twice:
  assumes "uc_table_ok s"
    and "ip_get_db_prep_value clean_ipv6_address ip = Some v"
    and "ip_get_db_prep_value clean_ipv6_address v = Some v"
  shows "\<exists>c1 s1 c2 s2.
           UserConnection_update clean_ipv6_address s t1 user ip = Inr (c1, s1)
         \<and> UserConnection_update clean_ipv6_address s1 t2 user ip = Inr (c2, s2)
         \<and> filter (\<lambda>c. uc_user c = user_id user \<and> uc_ip c = v) (UserConnection_objects s1)
             = [c1\<lparr>uc_ip := v\<rparr>]
         \<and> filter (\<lambda>c. uc_user c = user_id user \<and> uc_ip c = v) (UserConnection_objects s2)
             = [c2]
         \<and> length (UserConnection_objects s2) = length (UserConnection_objects s1)
         \<and> c2 = c1\<lparr>uc_ip := v, updated_at := t2\<rparr>
         \<and> (uc_ip c1 = ip \<or> uc_ip c1 = v)
         \<and> updated_at c1 = t1 \<and> updated_at c2 = t2"
proof -
  from update_first [OF assms, of t1 user] obtain c1 s1 where
    r1: "UserConnection_update clean_ipv6_address s t1 user ip = Inr (c1, s1)"
    and one1: "filter (\<lambda>c. uc_user c = user_id user \<and> uc_ip c = v) (UserConnection_objects s1)
                = [c1\<lparr>uc_ip := v\<rparr>]"
    and t1: "updated_at c1 = t1"
    and ip1: "uc_ip c1 = ip \<or> uc_ip c1 = v"
    and ids1: "distinct (map uc_id (UserConnection_objects s1))"
    by (elim exE conjE)
  let ?r1 = "c1\<lparr>uc_ip := v\<rparr>"
  let ?c2 = "?r1\<lparr>updated_at := t2\<rparr>"
  let ?s2 = "s1\<lparr>UserConnection_objects :=
                 map (\<lambda>r. if uc_id r = uc_id ?r1 then ?c2 else r) (UserConnection_objects s1)\<rparr>"
  have r2: "UserConnection_update clean_ipv6_address s1 t2 user ip = Inr (?c2, ?s2)"
    by (rule update_existing [OF ids1 one1 assms(2,3)])
  have one2: "filter (\<lambda>c. uc_user c = user_id user \<and> uc_ip c = v) (UserConnection_objects ?s2)
                = [?c2]"
    using rows_after_existing [OF ids1 one1, of t2] by simp
  have len: "length (UserConnection_objects ?s2) = length (UserConnection_objects s1)"
    by simp
  have c2: "?c2 = c1\<lparr>uc_ip := v, updated_at := t2\<rparr>" by simp
  have t2: "updated_at ?c2 = t2" by simp
  from r1 r2 one1 one2 len c2 ip1 t1 t2 show ?thesis
    by (intro exI [of _ c1] exI [of _ s1] exI [of _ ?c2] exI [of _ ?s2] conjI)
qed

text \<open>
  A first sighting of user 11 at an address another user already has, written in upper
  case: the first call inserts row 2 under the normal form, the second refreshes it.
\<close>

theorem UserConnection_update_twice_witness:
  "UserConnection_update [''2001:DB8::1'' \<mapsto> ''2001:db8::1'']
     \<lparr>Question_objects = [], Flag_objects = [], File_objects = [], Team_objects = [],
      UserConnection_objects =
        [\<lparr>created_at = 10, updated_at = 10, uc_id = 1, uc_user = 12, uc_ip = ''2001:db8::1''\<rparr>],
      Answer_objects = [], AttackPoint_objects = []\<rparr>
     100
     \<lparr>created_at = 0, updated_at = 0, user_id = 11, user_username = ''alice'',
      user_team = Some 3, user_seat = ''A1'', user_last_score_time = None\<rparr>
     ''2001:DB8::1''
   = Inr (\<lparr>created_at = 100, updated_at = 100, uc_id = 2, uc_user = 11, uc_ip = ''2001:DB8::1''\<rparr>,
          \<lparr>Question_objects = [], Flag_objects = [], File_objects = [], Team_objects = [],
           UserConnection_objects =
             [\<lparr>created_at = 10, updated_at = 10, uc_id = 1, uc_user = 12, uc_ip = ''2001:db8::1''\<rparr>,
              \<lparr>created_at = 100, updated_at = 100, uc_id = 2, uc_user = 11, uc_ip = ''2001:db8::1''\<rparr>],
           Answer_objects = [], AttackPoint_objects = []\<rparr>)
   \<and> UserConnection_update [''2001:DB8::1'' \<mapsto> ''2001:db8::1'']
     \<lparr>Question_objects = [], Flag_objects = [], File_objects = [], Team_objects = [],
      UserConnection_objects =
        [\<lparr>created_at = 10, updated_at = 10, uc_id = 1, uc_user = 12, uc_ip = ''2001:db8::1''\<rparr>,
         \<lparr>created_at = 100, updated_at = 100, uc_id = 2, uc_user = 11, uc_ip = ''2001:db8::1''\<rparr>],
      Answer_objects = [], AttackPoint_objects = []\<rparr>
     250
     \<lparr>created_at = 0, updated_at = 0, user_id = 11, user_username = ''alice'',
      user_team = Some 3, user_seat = ''A1'', user_last_score_time = None\<rparr>
     ''2001:DB8::1''
   = Inr (\<lparr>created_at = 100, updated_at = 250, uc_id = 2, uc_user = 11, uc_ip = ''2001:db8::1''\<rparr>,
          \<lparr>Question_objects = [], Flag_objects = [], File_objects = [], Team_objects = [],
           UserConnection_objects =
             [\<lparr>created_at = 10, updated_at = 10, uc_id = 1, uc_user = 12, uc_ip = ''2001:db8::1''\<rparr>,
              \<lparr>created_at = 100, updated_at = 250, uc_id = 2, uc_user = 11, uc_ip = ''2001:db8::1''\<rparr>],
           Answer_objects = [], AttackPoint_objects = []\<rparr>)"
  (is "UserConnection_update ?cl ?s 100 ?u ?ip = Inr (?c1, ?s1) \<and>
       UserConnection_update ?cl ?s1 250 ?u ?ip = Inr (?c2, ?s2)")
proof -
  have ok: "uc_table_ok ?s" by (simp add: uc_table_ok_def)
  have prep: "ip_get_db_prep_value ?cl ?ip = Some ''2001:db8::1''"
    by (simp add: ip_get_db_prep_value_def ip_get_prep_value_def)
  have stable: "ip_get_db_prep_value ?cl ''2001:db8::1'' = Some ''2001:db8::1''"
    by (simp add: ip_get_db_prep_value_def ip_get_prep_value_def)
  from UserConnection_update_twice [OF ok prep stable, of 100 ?u 250] obtain c1 s1 c2 s2 where
    r1: "UserConnection_update ?cl ?s 100 ?u ?ip = Inr (c1, s1)"
    and r2: "UserConnection_update ?cl s1 250 ?u ?ip = Inr (c2, s2)"
    by (elim exE conjE)
  have e1: "UserConnection_update ?cl ?s 100 ?u ?ip = Inr (?c1, ?s1)"
    by (simp add: UserConnection_update_def get_or_create_def UserConnection_get_def
          UserConnection_create_def prep next_id_def Let_def)
  from r1 e1 have eq: "s1 = ?s1" by simp
  have e2: "UserConnection_update ?cl ?s1 250 ?u ?ip = Inr (?c2, ?s2)"
    by (simp add: UserConnection_update_def get_or_create_def UserConnection_get_def
          UserConnection_save_def prep stable Let_def)
  from r2 [unfolded eq] e1 e2 show ?thesis by (simp only: simp_thms)
qed

subsection \<open>Team.check_password\<close>

lemma only_password_written_same: "only_password_written i s s"
  by (simp add: only_password_written_def list_all2_same)

lemma only_password_written_update:
  "only_password_written i s
     (s\<lparr>Team_objects :=
          map (\<lambda>r. if team_id r = i then r\<lparr>team_password := pw\<rparr> else r) (Team_objects s)\<rparr>)"
  by (simp add: only_password_written_def list_all2_map2 list_all2_same)

lemma check_password_no_upgrade:
  assumes "\<not> (\<exists>p. raw = Some p \<and> is_password_usable h (team_password self)
                \<and> verify h p (team_password self) \<and> must_update h (team_password self))"
  shows "Team_check_password h s self raw =
           Inr ((case raw of None \<Rightarrow> False
                 | Some p \<Rightarrow> is_password_usable h (team_password self)
                             \<and> verify h p (team_password self)), self, s)"
proof (cases raw)
  case None
  then show ?thesis by (simp add: Team_check_password_def check_password_def)
next
  case (Some p)
  with assms have "\<not> (is_password_usable h (team_password self)
                \<and> verify h p (team_password self) \<and> must_update h (team_password self))"
    by simp
  with Some show ?thesis
    by (cases "is_password_usable h (team_password self)";
        cases "verify h p (team_password self)")
       (simp_all add: Team_check_password_def check_password_def Let_def)
qed

lemma check_password_upgrade:
  assumes "list_ex (\<lambda>r. team_id r = team_id self) (Team_objects s)"
    and "is_password_usable h (team_password self)"
    and "verify h p (team_password self)" and "must_update h (team_password self)"
  shows "Team_check_password h s self (Some p) =
           Inr (True,
                self\<lparr>team_password := make_password h p, team__password := Some None\<rparr>,
                s\<lparr>Team_objects :=
                    map (\<lambda>r. if team_id r = team_id self
                              then r\<lparr>team_password := make_password h p\<rparr> else r)
                      (Team_objects s)\<rparr>)"
  using assms
  by (simp add: Team_check_password_def check_password_def Let_def setter_def set_password_def
        save_password_def)

text \<open>
  Claim C9. For a team whose row is stored and every raw password, \<open>Team.check_password\<close>
  returns whether the raw password matches the hash the object holds. Whether or not the
  hash is upgraded, the object keeps its id, name, last score time and timestamps, every
  table but Team is unchanged, the rows of other teams are unchanged, and the team's row
  changes in its password column at most. When a legacy hash is upgraded, the new hash
  is on the object and in the team's row. The setter also resets the object's attribute
  \<open>_password\<close>, which is no field of the model and is not stored.
\<close>

theorem Team_check_password_frame:
  assumes "list_ex (\<lambda>r. team_id r = team_id self) (Team_objects s)"
  shows "\<exists>self' s'.
           Team_check_password h s self raw =
             Inr ((case raw of None \<Rightarrow> False
                   | Some p \<Rightarrow> is_password_usable h (team_password self)
                               \<and> verify h p (team_password self)), self', s')
         \<and> team_id self' = team_id self \<and> team_name self' = team_name self
         \<and> team_last_score_time self' = team_last_score_time self
         \<and> created_at self' = created_at self \<and> updated_at self' = updated_at self
         \<and> only_password_written (team_id self) s s'
         \<and> (\<forall>p. raw = Some p \<and> is_password_usable h (team_password self)
                \<and> verify h p (team_password self) \<and> must_update h (team_password self)
              \<longrightarrow> team_password self' = make_password h p
                  \<and> list_all (\<lambda>r. team_id r = team_id self
                                   \<longrightarrow> team_password r = make_password h p) (Team_objects s'))"
proof (cases "\<exists>p. raw = Some p \<and> is_password_usable h (team_password self)
                \<and> verify h p (team_password self) \<and> must_update h (team_password self)")
  case False
  then have vac: "\<forall>p. raw = Some p \<and> is_password_usable h (team_password self)
                \<and> verify h p (team_password self) \<and> must_update h (team_password self)
              \<longrightarrow> team_password self = make_password h p
                  \<and> list_all (\<lambda>r. team_id r = team_id self
                                   \<longrightarrow> team_password r = make_password h p) (Team_objects s)"
    by blast
  from check_password_no_upgrade [OF False] vac only_password_written_same [of "team_id self" s]
  show ?thesis
    by (intro exI [of _ self] exI [of _ s] conjI refl)
next
  case True
  then obtain p where raw: "raw = Some p" and u: "is_password_usable h (team_password self)"
    and v: "verify h p (team_password self)" and m: "must_update h (team_password self)"
    by (elim exE conjE)
  let ?self' = "self\<lparr>team_password := make_password h p, team__password := Some None\<rparr>"
  let ?s' = "s\<lparr>Team_objects :=
                    map (\<lambda>r. if team_id r = team_id self
                              then r\<lparr>team_password := make_password h p\<rparr> else r)
                      (Team_objects s)\<rparr>"
  have rows: "Team_objects ?s' =
                map (\<lambda>r. if team_id r = team_id self
                          then r\<lparr>team_password := make_password h p\<rparr> else r)
                  (Team_objects s)"
    by simp
  have stored: "list_all (\<lambda>r. team_id r = team_id self \<longrightarrow> team_password r = make_password h p)
                  (Team_objects ?s')"
    unfolding rows by (rule list_all_mapI) simp
  from check_password_upgrade [OF assms u v m] raw u v stored
    only_password_written_update [of "team_id self" s "make_password h p"]
  show ?thesis
    by (intro exI [of _ ?self'] exI [of _ ?s']) simp
qed

text \<open>
  A legacy hash is upgraded: the result is true, the object and row 3 get the new hash,
  and row 4, the names, the score times and the timestamps stay as they were.
\<close>

theorem Team_check_password_frame_witness:
  "Team_check_password
     \<lparr>is_password_usable = (\<lambda>e. e \<noteq> ''!''),
      verify = (\<lambda>p e. e = ''md5$'' @ p \<or> e = ''pbkdf2$'' @ p),
      must_update = (\<lambda>e. take 4 e = ''md5$''),
      make_password = (\<lambda>p. ''pbkdf2$'' @ p)\<rparr>
     \<lparr>Question_objects = [], Flag_objects = [], File_objects = [],
      Team_objects =
        [\<lparr>created_at = 1, updated_at = 2, team_id = 3, team_name = ''t3'',
          team_password = ''md5$hunter2'', team_last_score_time = Some 50\<rparr>,
         \<lparr>created_at = 1, updated_at = 1, team_id = 4, team_name = ''t4'',
          team_password = ''md5$other'', team_last_score_time = None\<rparr>],
      UserConnection_objects = [], Answer_objects = [], AttackPoint_objects = []\<rparr>
     \<lparr>created_at = 1, updated_at = 2, team_id = 3, team_name = ''t3'',
      team_password = ''md5$hunter2'', team_last_score_time = Some 50,
      team__password = None\<rparr>
     (Some ''hunter2'')
   = Inr (True,
     \<lparr>created_at = 1, updated_at = 2, team_id = 3, team_name = ''t3'',
      team_password = ''pbkdf2$hunter2'', team_last_score_time = Some 50,
      team__password = Some None\<rparr>,
     \<lparr>Question_objects = [], Flag_objects = [], File_objects = [],
      Team_objects =
        [\<lparr>created_at = 1, updated_at = 2, team_id = 3, team_name = ''t3'',
          team_password = ''pbkdf2$hunter2'', team_last_score_time = Some 50\<rparr>,
         \<lparr>created_at = 1, updated_at = 1, team_id = 4, team_name = ''t4'',
          team_password = ''md5$other'', team_last_score_time = None\<rparr>],
      UserConnection_objects = [], Answer_objects = [], AttackPoint_objects = []\<rparr>)"
  (is "Team_check_password ?h ?s ?self ?raw = Inr (True, ?self', ?s')")
proof -
  have stored: "list_ex (\<lambda>r. team_id r = team_id ?self) (Team_objects ?s)" by simp
  from Team_check_password_frame [OF stored, of ?h ?raw] obtain self' s' where
    r: "Team_check_password ?h ?s ?self ?raw =
          Inr ((case ?raw of None \<Rightarrow> False
                | Some p \<Rightarrow> is_password_usable ?h (team_password ?self)
                            \<and> verify ?h p (team_password ?self)), self', s')"
    and name: "team_name self' = team_name ?self"
    and frame: "only_password_written (team_id ?self) ?s s'"
    by (elim exE conjE)
  have e: "Team_check_password ?h ?s ?self ?raw = Inr (True, ?self', ?s')"
    by (simp add: Team_check_password_def check_password_def setter_def set_password_def
          save_password_def Let_def)
  from r e show ?thesis by (simp only: simp_thms)
qed

subsection \<open>Config.value\<close>

text \<open>
  \<open>set_value\<close> raises what \<open>pickle.dumps\<close> raises: for a value that cannot be pickled, such
  as a lambda, no payload is stored and nothing can be read back, so the round trip does
  not hold for every value.
\<close>

theorem set_value_function_counterexample:
  "set_value
     (\<lambda>v. case v of PyInt i \<Rightarrow> Inr (''I'' @ str_int i) | PyStr t \<Rightarrow> Inr (''S'' @ t)
           | PyFunction n \<Rightarrow> Inl PicklingError)
     \<lparr>created_at = 0, updated_at = 0, config_id = 1, config_key = ''hook'',
      config_value_str = ''''\<rparr>
     (PyFunction ''<lambda>'')
   = Inl PicklingError"
  by (simp add: set_value_def)

text \<open>
  Claim C8, as the code has it. For every value, getting a Config's value after setting
  it gives exactly what \<open>pickle.loads\<close> gives on the payload of \<open>pickle.dumps\<close>, and raises
  what they raise: \<open>set_value\<close> stores the payload in \<open>value_str\<close>, changing nothing else,
  and \<open>get_value\<close> reads it from there. So the value comes back for every value that
  \<open>pickle\<close> serialises to a payload it deserialises to that value, and \<open>set_value\<close> raises
  for a value \<open>pickle.dumps\<close> refuses.
\<close>

theorem get_value_set_value:
  "(case set_value pickle_dumps c v of Inl e \<Rightarrow> Inl e | Inr c' \<Rightarrow> get_value pickle_loads c')
     = (case pickle_dumps v of Inl e \<Rightarrow> Inl e | Inr p \<Rightarrow> pickle_loads p)
   \<and> (\<forall>p. pickle_dumps v = Inr p \<longrightarrow>
          set_value pickle_dumps c v = Inr (c\<lparr>config_value_str := p\<rparr>))
   \<and> (\<forall>p. pickle_dumps v = Inr p \<and> pickle_loads p = Inr v \<longrightarrow>
          (\<exists>c'. set_value pickle_dumps c v = Inr c' \<and> get_value pickle_loads c' = Inr v))
   \<and> (\<forall>e. pickle_dumps v = Inl e \<longrightarrow> set_value pickle_dumps c v = Inl e)"
proof (cases "pickle_dumps v")
  case (Inl e)
  then show ?thesis by (simp add: set_value_def)
next
  case (Inr p)
  then show ?thesis by (simp add: set_value_def get_value_def)
qed

text \<open>A pickle that tags integers and texts and refuses functions, and the text hello.\<close>

theorem get_value_set_value_witness:
  "set_value
     (\<lambda>v. case v of PyInt i \<Rightarrow> Inr (''I'' @ str_int i) | PyStr t \<Rightarrow> Inr (''S'' @ t)
           | PyFunction n \<Rightarrow> Inl PicklingError)
     \<lparr>created_at = 0, updated_at = 0, config_id = 1, config_key = ''motd'',
      config_value_str = ''''\<rparr>
     (PyStr ''hello'')
   = Inr \<lparr>created_at = 0, updated_at = 0, config_id = 1, config_key = ''motd'',
          config_value_str = ''Shello''\<rparr>
   \<and> get_value
     (\<lambda>p. case p of [] \<Rightarrow> Inl UnpicklingError
           | k # t \<Rightarrow> if k = CHR ''S'' then Inr (PyStr t) else Inl UnpicklingError)
     \<lparr>created_at = 0, updated_at = 0, config_id = 1, config_key = ''motd'',
      config_value_str = ''Shello''\<rparr>
   = Inr (PyStr ''hello'')"
  (is "set_value ?dumps ?c ?v = Inr ?c' \<and> get_value ?loads ?c' = Inr ?v")
proof -
  have d: "?dumps ?v = Inr ''Shello''" by simp
  have l: "?loads ''Shello'' = Inr ?v" by simp
  from get_value_set_value [where pickle_dumps = ?dumps and c = ?c and v = ?v and pickle_loads = ?loads] d
  have s: "set_value ?dumps ?c ?v = Inr (?c\<lparr>config_value_str := ''Shello''\<rparr>)"
    by (elim conjE allE [of _ "''Shello''"]) (simp only: simp_thms)
  then have s': "set_value ?dumps ?c ?v = Inr ?c'" by simp
  from get_value_set_value [where pickle_dumps = ?dumps and c = ?c and v = ?v and pickle_loads = ?loads] d l
  obtain c' where c': "set_value ?dumps ?c ?v = Inr c'" "get_value ?loads c' = Inr ?v"
    by (elim conjE allE [of _ "''Shello''"]) (simp only: simp_thms, elim exE conjE)
  from c'(1) s' have "c' = ?c'" by simp
  with c'(2) have "get_value ?loads ?c' = Inr ?v" by simp
  with s' show ?thesis by (rule conjI)
qed

subsection \<open>One Answer row per team and flag\<close>

lemma Answer_insert_conflict:
  assumes "r \<in> set (Answer_objects s)" and "answer_team r = answer_team a"
    and "answer_flag r = Some f" and "answer_flag a = Some f"
  shows "Answer_insert s now a = Inl IntegrityError"
proof -
  from assms have "list_ex (\<lambda>r. answer_team r = answer_team a \<and> answer_flag r = Some f)
                     (Answer_objects s)"
    unfolding list_ex_iff by (intro bexI [of _ r] conjI)
  with assms(4) show ?thesis by (simp add: Answer_insert_def Answer_conflict_def)
qed

lemma Answer_insert_accepted:
  assumes "Answer_insert s now a = Inr (a', s')"
  shows "\<not> Answer_conflict (Answer_objects s) a"
    and "a' = a\<lparr>created_at := now, updated_at := now,
                 answer_id := next_id (map answer_id (Answer_objects s))\<rparr>"
    and "s' = s\<lparr>Answer_objects := Answer_objects s @ [a']\<rparr>"
proof -
  show c: "\<not> Answer_conflict (Answer_objects s) a"
    using assms by (cases "Answer_conflict (Answer_objects s) a") (simp_all add: Answer_insert_def)
  with assms show "a' = a\<lparr>created_at := now, updated_at := now,
                 answer_id := next_id (map answer_id (Answer_objects s))\<rparr>"
    by (simp add: Answer_insert_def Let_def)
  with c assms show "s' = s\<lparr>Answer_objects := Answer_objects s @ [a']\<rparr>"
    by (simp add: Answer_insert_def Let_def)
qed

text \<open>
  Claim C3. For every team and flag, inserting an Answer row with the team and flag of a
  stored row is rejected with \<open>IntegrityError\<close>. After a first row for a team and a flag
  has been accepted, a second one for the same pair is rejected, and the first is the
  only row of the pair.
\<close>

theorem Answer_unique_team_flag:
  "(r \<in> set (Answer_objects s) \<and> answer_team r = answer_team a
      \<and> answer_flag r = Some f \<and> answer_flag a = Some f
    \<longrightarrow> Answer_insert s now a = Inl IntegrityError)
   \<and> (answer_flag first = Some f \<and> Answer_insert s now first = Inr (row, s')
      \<and> answer_team second = answer_team first \<and> answer_flag second = Some f
    \<longrightarrow> Answer_insert s' now' second = Inl IntegrityError
      \<and> filter (\<lambda>r. answer_team r = answer_team first \<and> answer_flag r = Some f)
            (Answer_objects s') = [row])"
proof (rule conjI; rule impI)
  assume "r \<in> set (Answer_objects s) \<and> answer_team r = answer_team a
      \<and> answer_flag r = Some f \<and> answer_flag a = Some f"
  then show "Answer_insert s now a = Inl IntegrityError"
    by (elim conjE) (rule Answer_insert_conflict)
next
  assume h: "answer_flag first = Some f \<and> Answer_insert s now first = Inr (row, s')
      \<and> answer_team second = answer_team first \<and> answer_flag second = Some f"
  then have f1: "answer_flag first = Some f" and ins: "Answer_insert s now first = Inr (row, s')"
    and t2: "answer_team second = answer_team first" and f2: "answer_flag second = Some f"
    by simp_all
  note acc = Answer_insert_accepted [OF ins]
  from acc(2) f1 have r1: "answer_team row = answer_team first" "answer_flag row = Some f"
    by simp_all
  from acc(3) have rows: "Answer_objects s' = Answer_objects s @ [row]" by simp
  from acc(1) f1 have "filter (\<lambda>r. answer_team r = answer_team first \<and> answer_flag r = Some f)
                         (Answer_objects s) = []"
    by (simp add: Answer_conflict_def list_ex_iff filter_empty_conv)
  with r1 rows
  have one: "filter (\<lambda>r. answer_team r = answer_team first \<and> answer_flag r = Some f)
            (Answer_objects s') = [row]"
    by simp
  have "row \<in> set (Answer_objects s')" unfolding rows by simp
  from Answer_insert_conflict [OF this _ r1(2) f2] r1(1) t2
  have "Answer_insert s' now' second = Inl IntegrityError" by simp
  with one show "Answer_insert s' now' second = Inl IntegrityError
      \<and> filter (\<lambda>r. answer_team r = answer_team first \<and> answer_flag r = Some f)
            (Answer_objects s') = [row]"
    by (rule conjI [rotated])
qed

text \<open>Two users of team 3 submit flag 1: the second submission is rejected.\<close>

theorem Answer_unique_team_flag_witness:
  "Answer_insert
     \<lparr>Question_objects = [], Flag_objects = [], File_objects = [], Team_objects = [],
      UserConnection_objects = [], Answer_objects = [], AttackPoint_objects = []\<rparr>
     100
     \<lparr>created_at = 0, updated_at = 0, answer_id = 0, answer_user = 11, answer_team = 3,
      answer_question = 7, answer_flag = Some 1, answer_answer = ''FLAG{a}''\<rparr>
   = Inr (\<lparr>created_at = 100, updated_at = 100, answer_id = 1, answer_user = 11, answer_team = 3,
           answer_question = 7, answer_flag = Some 1, answer_answer = ''FLAG{a}''\<rparr>,
          \<lparr>Question_objects = [], Flag_objects = [], File_objects = [], Team_objects = [],
           UserConnection_objects = [],
           Answer_objects =
             [\<lparr>created_at = 100, updated_at = 100, answer_id = 1, answer_user = 11,
               answer_team = 3, answer_question = 7, answer_flag = Some 1,
               answer_answer = ''FLAG{a}''\<rparr>],
           AttackPoint_objects = []\<rparr>)
   \<and> Answer_insert
     \<lparr>Question_objects = [], Flag_objects = [], File_objects = [], Team_objects = [],
      UserConnection_objects = [],
      Answer_objects =
        [\<lparr>created_at = 100, updated_at = 100, answer_id = 1, answer_user = 11,
          answer_team = 3, answer_question = 7, answer_flag = Some 1,
          answer_answer = ''FLAG{a}''\<rparr>],
      AttackPoint_objects = []\<rparr>
     200
     \<lparr>created_at = 0, updated_at = 0, answer_id = 0, answer_user = 12, answer_team = 3,
      answer_question = 7, answer_flag = Some 1, answer_answer = ''FLAG{a}''\<rparr>
   = Inl IntegrityError"
  (is "Answer_insert ?s 100 ?first = Inr (?row, ?s') \<and> Answer_insert ?s' 200 ?second = _")
proof -
  have e: "Answer_insert ?s 100 ?first = Inr (?row, ?s')"
    by (simp add: Answer_insert_def Answer_conflict_def next_id_def Let_def)
  have h: "answer_flag ?first = Some 1 \<and> Answer_insert ?s 100 ?first = Inr (?row, ?s')
      \<and> answer_team ?second = answer_team ?first \<and> answer_flag ?second = Some 1"
    using e by simp
  from Answer_unique_team_flag [where first = ?first and second = ?second and s = ?s
      and s' = ?s' and row = ?row and now = 100 and now' = 200 and f = 1, THEN conjunct2,
      THEN mp, OF h]
  have "Answer_insert ?s' 200 ?second = Inl IntegrityError" by (rule conjunct1)
  with e show ?thesis by (rule conjI)
qed

subsection \<open>One AttackPoint row per token\<close>

lemma AttackPoint_insert_conflict:
  assumes "r \<in> set (AttackPoint_objects s)" and "ap_token r = ap_token p"
  shows "AttackPoint_insert s now p = Inl IntegrityError"
proof -
  from assms have "list_ex (\<lambda>r. ap_token r = ap_token p) (AttackPoint_objects s)"
    unfolding list_ex_iff by (intro bexI [of _ r])
  then show ?thesis by (simp add: AttackPoint_insert_def)
qed

lemma AttackPoint_insert_accepted:
  assumes "AttackPoint_insert s now p = Inr (p', s')"
  shows "\<not> list_ex (\<lambda>r. ap_token r = ap_token p) (AttackPoint_objects s)"
    and "p' = p\<lparr>created_at := now, updated_at := now,
                 ap_id := next_id (map ap_id (AttackPoint_objects s))\<rparr>"
    and "s' = s\<lparr>AttackPoint_objects := AttackPoint_objects s @ [p']\<rparr>"
proof -
  show c: "\<not> list_ex (\<lambda>r. ap_token r = ap_token p) (AttackPoint_objects s)"
    using assms
    by (cases "list_ex (\<lambda>r. ap_token r = ap_token p) (AttackPoint_objects s)")
      (simp_all add: AttackPoint_insert_def)
  with assms show "p' = p\<lparr>created_at := now, updated_at := now,
                 ap_id := next_id (map ap_id (AttackPoint_objects s))\<rparr>"
    by (simp add: AttackPoint_insert_def Let_def)
  with c assms show "s' = s\<lparr>AttackPoint_objects := AttackPoint_objects s @ [p']\<rparr>"
    by (simp add: AttackPoint_insert_def Let_def)
qed

text \<open>
  Claim C6. For every token, inserting an AttackPoint row with the token of a stored row
  is rejected with \<open>IntegrityError\<close>. After a first row with a token has been accepted, a
  second one with the same token is rejected, whoever submits it, and the first is the
  only row with the token: the proof is credited once.
\<close>

theorem AttackPoint_unique_token:
  "(r \<in> set (AttackPoint_objects s) \<and> ap_token r = ap_token p
    \<longrightarrow> AttackPoint_insert s now p = Inl IntegrityError)
   \<and> (AttackPoint_insert s now first = Inr (row, s') \<and> ap_token second = ap_token first
    \<longrightarrow> AttackPoint_insert s' now' second = Inl IntegrityError
      \<and> filter (\<lambda>r. ap_token r = ap_token first) (AttackPoint_objects s') = [row])"
proof (rule conjI; rule impI)
  assume "r \<in> set (AttackPoint_objects s) \<and> ap_token r = ap_token p"
  then show "AttackPoint_insert s now p = Inl IntegrityError"
    by (elim conjE) (rule AttackPoint_insert_conflict)
next
  assume h: "AttackPoint_insert s now first = Inr (row, s') \<and> ap_token second = ap_token first"
  then have ins: "AttackPoint_insert s now first = Inr (row, s')"
    and t2: "ap_token second = ap_token first"
    by simp_all
  note acc = AttackPoint_insert_accepted [OF ins]
  from acc(2) have r1: "ap_token row = ap_token first" by simp
  from acc(3) have rows: "AttackPoint_objects s' = AttackPoint_objects s @ [row]" by simp
  from acc(1) have "filter (\<lambda>r. ap_token r = ap_token first) (AttackPoint_objects s) = []"
    by (simp add: list_ex_iff filter_empty_conv)
  with r1 rows
  have one: "filter (\<lambda>r. ap_token r = ap_token first) (AttackPoint_objects s') = [row]"
    by simp
  have "row \<in> set (AttackPoint_objects s')" unfolding rows by simp
  from AttackPoint_insert_conflict [OF this] r1 t2
  have "AttackPoint_insert s' now' second = Inl IntegrityError" by simp
  with one show "AttackPoint_insert s' now' second = Inl IntegrityError
      \<and> filter (\<lambda>r. ap_token r = ap_token first) (AttackPoint_objects s') = [row]"
    by (rule conjI [rotated])
qed

text \<open>Team 4 submits the token team 3 has been credited for: rejected.\<close>

theorem AttackPoint_unique_token_witness:
  "AttackPoint_insert
     \<lparr>Question_objects = [], Flag_objects = [], File_objects = [], Team_objects = [],
      UserConnection_objects = [], Answer_objects = [], AttackPoint_objects = []\<rparr>
     100
     \<lparr>created_at = 0, updated_at = 0, ap_id = 0, ap_user = 11, ap_team = 3,
      ap_question = 7, ap_token = ''tok1'', ap_point = 5\<rparr>
   = Inr (\<lparr>created_at = 100, updated_at = 100, ap_id = 1, ap_user = 11, ap_team = 3,
           ap_question = 7, ap_token = ''tok1'', ap_point = 5\<rparr>,
          \<lparr>Question_objects = [], Flag_objects = [], File_objects = [], Team_objects = [],
           UserConnection_objects = [], Answer_objects = [],
           AttackPoint_objects =
             [\<lparr>created_at = 100, updated_at = 100, ap_id = 1, ap_user = 11, ap_team = 3,
               ap_question = 7, ap_token = ''tok1'', ap_point = 5\<rparr>]\<rparr>)
   \<and> AttackPoint_insert
     \<lparr>Question_objects = [], Flag_objects = [], File_objects = [], Team_objects = [],
      UserConnection_objects = [], Answer_objects = [],
      AttackPoint_objects =
        [\<lparr>created_at = 100, updated_at = 100, ap_id = 1, ap_user = 11, ap_team = 3,
          ap_question = 7, ap_token = ''tok1'', ap_point = 5\<rparr>]\<rparr>
     200
     \<lparr>created_at = 0, updated_at = 0, ap_id = 0, ap_user = 20, ap_team = 4,
      ap_question = 8, ap_token = ''tok1'', ap_point = 9\<rparr>
   = Inl IntegrityError"
  (is "AttackPoint_insert ?s 100 ?first = Inr (?row, ?s') \<and>
       AttackPoint_insert ?s' 200 ?second = _")
proof -
  have e: "AttackPoint_insert ?s 100 ?first = Inr (?row, ?s')"
    by (simp add: AttackPoint_insert_def next_id_def Let_def)
  have h: "AttackPoint_insert ?s 100 ?first = Inr (?row, ?s')
      \<and> ap_token ?second = ap_token ?first"
    using e by simp
  from AttackPoint_unique_token [where first = ?first and second = ?second and s = ?s
      and s' = ?s' and row = ?row and now = 100 and now' = 200, THEN conjunct2,
      THEN mp, OF h]
  have "AttackPoint_insert ?s' 200 ?second = Inl IntegrityError" by (rule conjunct1)
  with e show ?thesis by (rule conjI)
qed

subsection \<open>Incorrect answers are not restricted\<close>

lemma Answer_insert_incorrect:
  assumes "\<not> is_correct a"
  shows "Answer_insert s now a =
           Inr (a\<lparr>created_at := now, updated_at := now,
                  answer_id := next_id (map answer_id (Answer_objects s))\<rparr>,
                s\<lparr>Answer_objects := Answer_objects s @
                   [a\<lparr>created_at := now, updated_at := now,
                      answer_id := next_id (map answer_id (Answer_objects s))\<rparr>]\<rparr>)"
  using assms by (simp add: Answer_insert_def Answer_conflict_def is_correct_def Let_def)

lemma Answer_insert_all_incorrect:
  "list_all (\<lambda>a. \<not> is_correct a) as \<Longrightarrow>
   \<exists>s'. Answer_insert_all s now as = Inr s'
      \<and> map (\<lambda>r. (answer_team r, answer_flag r)) (Answer_objects s') =
          map (\<lambda>r. (answer_team r, answer_flag r)) (Answer_objects s) @
          map (\<lambda>a. (answer_team a, None)) as"
proof (induction as arbitrary: s)
  case Nil
  show ?case by simp
next
  case (Cons a as)
  from Cons.prems have a: "\<not> is_correct a" and rest: "list_all (\<lambda>a. \<not> is_correct a) as"
    by simp_all
  let ?a' = "a\<lparr>created_at := now, updated_at := now,
                answer_id := next_id (map answer_id (Answer_objects s))\<rparr>"
  let ?s1 = "s\<lparr>Answer_objects := Answer_objects s @ [?a']\<rparr>"
  from Cons.IH [OF rest, of ?s1] obtain s' where
    r: "Answer_insert_all ?s1 now as = Inr s'"
    and m: "map (\<lambda>r. (answer_team r, answer_flag r)) (Answer_objects s') =
          map (\<lambda>r. (answer_team r, answer_flag r)) (Answer_objects ?s1) @
          map (\<lambda>a. (answer_team a, None)) as"
    by (elim exE conjE)
  from a have none: "answer_flag a = None" by (simp add: is_correct_def)
  have "Answer_insert_all s now (a # as) = Inr s'"
    by (simp add: Answer_insert_incorrect [OF a] r)
  moreover have "map (\<lambda>r. (answer_team r, answer_flag r)) (Answer_objects s') =
          map (\<lambda>r. (answer_team r, answer_flag r)) (Answer_objects s) @
          map (\<lambda>a. (answer_team a, None)) (a # as)"
    using m none by simp
  ultimately show ?case by (intro exI [of _ s'] conjI)
qed

text \<open>
  Claim C10. The uniqueness constraint on (team, flag) restricts only rows with a flag:
  an Answer row whose flag is null conflicts with no stored row, and any sequence of such
  rows is inserted without a rejection, each of them appended with its team and a null
  flag, whatever the table already holds.
\<close>

theorem Answer_incorrect_never_rejected:
  "(\<not> is_correct a \<longrightarrow> \<not> Answer_conflict rows a)
   \<and> (list_all (\<lambda>a. \<not> is_correct a) as \<longrightarrow>
       (\<exists>s'. Answer_insert_all s now as = Inr s'
          \<and> length (Answer_objects s') = length (Answer_objects s) + length as
          \<and> map (\<lambda>r. (answer_team r, answer_flag r)) (Answer_objects s') =
              map (\<lambda>r. (answer_team r, answer_flag r)) (Answer_objects s) @
              map (\<lambda>a. (answer_team a, None)) as))"
proof (rule conjI; rule impI)
  assume "\<not> is_correct a"
  then show "\<not> Answer_conflict rows a"
    by (simp add: is_correct_def Answer_conflict_def)
next
  assume "list_all (\<lambda>a. \<not> is_correct a) as"
  from Answer_insert_all_incorrect [OF this, of s now] obtain s' where
    r: "Answer_insert_all s now as = Inr s'"
    and m: "map (\<lambda>r. (answer_team r, answer_flag r)) (Answer_objects s') =
          map (\<lambda>r. (answer_team r, answer_flag r)) (Answer_objects s) @
          map (\<lambda>a. (answer_team a, None)) as"
    by (elim exE conjE)
  from m have "length (map (\<lambda>r. (answer_team r, answer_flag r)) (Answer_objects s')) =
      length (map (\<lambda>r. (answer_team r, answer_flag r)) (Answer_objects s) @
          map (\<lambda>a. (answer_team a, None)) as)"
    by (simp only:)
  then have len: "length (Answer_objects s') = length (Answer_objects s) + length as"
    by simp
  from r len m show "\<exists>s'. Answer_insert_all s now as = Inr s'
          \<and> length (Answer_objects s') = length (Answer_objects s) + length as
          \<and> map (\<lambda>r. (answer_team r, answer_flag r)) (Answer_objects s') =
              map (\<lambda>r. (answer_team r, answer_flag r)) (Answer_objects s) @
              map (\<lambda>a. (answer_team a, None)) as"
    by (intro exI [of _ s'] conjI)
qed

text \<open>Team 3 already has an incorrect answer and records two more.\<close>

theorem Answer_incorrect_never_rejected_witness:
  "Answer_insert_all
     \<lparr>Question_objects = [], Flag_objects = [], File_objects = [], Team_objects = [],
      UserConnection_objects = [],
      Answer_objects =
        [\<lparr>created_at = 50, updated_at = 50, answer_id = 1, answer_user = 11,
          answer_team = 3, answer_question = 7, answer_flag = None,
          answer_answer = ''guess0''\<rparr>],
      AttackPoint_objects = []\<rparr>
     100
     [\<lparr>created_at = 0, updated_at = 0, answer_id = 0, answer_user = 11, answer_team = 3,
       answer_question = 7, answer_flag = None, answer_answer = ''guess1''\<rparr>,
      \<lparr>created_at = 0, updated_at = 0, answer_id = 0, answer_user = 12, answer_team = 3,
       answer_question = 7, answer_flag = None, answer_answer = ''guess2''\<rparr>]
   = Inr \<lparr>Question_objects = [], Flag_objects = [], File_objects = [], Team_objects = [],
      UserConnection_objects = [],
      Answer_objects =
        [\<lparr>created_at = 50, updated_at = 50, answer_id = 1, answer_user = 11,
          answer_team = 3, answer_question = 7, answer_flag = None,
          answer_answer = ''guess0''\<rparr>,
         \<lparr>created_at = 100, updated_at = 100, answer_id = 2, answer_user = 11,
          answer_team = 3, answer_question = 7, answer_flag = None,
          answer_answer = ''guess1''\<rparr>,
         \<lparr>created_at = 100, updated_at = 100, answer_id = 3, answer_user = 12,
          answer_team = 3, answer_question = 7, answer_flag = None,
          answer_answer = ''guess2''\<rparr>],
      AttackPoint_objects = []\<rparr>"
  (is "Answer_insert_all ?s 100 ?as = Inr ?s'")
proof -
  have h: "list_all (\<lambda>a. \<not> is_correct a) ?as" by (simp add: is_correct_def)
  from Answer_incorrect_never_rejected [where as = ?as and s = ?s and now = 100,
      THEN conjunct2, THEN mp, OF h]
  obtain s' where r: "Answer_insert_all ?s 100 ?as = Inr s'"
    by (elim exE conjE)
  have e: "Answer_insert_all ?s 100 ?as = Inr ?s'"
    by (simp add: Answer_insert_def Answer_conflict_def next_id_def Let_def)
  from r e show ?thesis by (simp only: simp_thms)
qed

end
